theory Spec2Isabelle
  imports Main
begin

section \<open>JavaScript values\<close>

text \<open>
  A JavaScript string is a sequence of UTF-16 code units; a code unit is modelled by its
  number.  \<open>js\<close> turns an ASCII literal into such a sequence.
\<close>

type_synonym jsstring = "nat list"

definition js :: "string \<Rightarrow> jsstring" where
  "js cs = map of_char cs"

text \<open>
  The values that cross the process boundary (IPC arguments, parsed worker output, stored
  preferences).  Numbers are the integral ones; no handler of \<open>main.js\<close> looks at a number
  beyond its truthiness.
\<close>

datatype jsval =
    JUndefined
  | JNull
  | JBool bool
  | JNum int
  | JStr jsstring
  | JArr "jsval list"
  | JObj "(jsstring \<times> jsval) list"

datatype exn = SyntaxError | TypeError | Error jsstring

fun truthy :: "jsval \<Rightarrow> bool" where
  "truthy JUndefined = False"
| "truthy JNull = False"
| "truthy (JBool b) = b"
| "truthy (JNum n) = (n \<noteq> 0)"
| "truthy (JStr s) = (s \<noteq> [])"
| "truthy (JArr vs) = True"
| "truthy (JObj kvs) = True"

text \<open>
  Member access \<open>v.k\<close> for the property names the program reads (\<open>event\<close>, \<open>model_name\<close>,
  \<open>language\<close>), none of which a built-in prototype defines: it throws on \<open>null\<close> and
  \<open>undefined\<close>, reads an own property of an object, and is \<open>undefined\<close> on anything else.
\<close>

fun get_prop :: "jsval \<Rightarrow> jsstring \<Rightarrow> exn + jsval" where
  "get_prop JUndefined k = Inl TypeError"
| "get_prop JNull k = Inl TypeError"
| "get_prop (JObj kvs) k = Inr (case map_of kvs k of None \<Rightarrow> JUndefined | Some v \<Rightarrow> v)"
| "get_prop v k = Inr JUndefined"

text \<open>Optional chaining \<open>v?.k\<close>.\<close>

definition opt_prop :: "jsval \<Rightarrow> jsstring \<Rightarrow> jsval" where
  "opt_prop v k = (case get_prop v k of Inl e \<Rightarrow> JUndefined | Inr x \<Rightarrow> x)"


section \<open>The platform and the program state\<close>

text \<open>
  What the runtime supplies and the repository does not define: \<open>JSON.parse\<close> (\<open>None\<close> when
  it throws a SyntaxError), \<open>JSON.stringify\<close>, and the two paths \<open>startPython\<close> computes
  from \<open>__dirname\<close>.
\<close>

record platform =
  JSON_parse :: "jsstring \<Rightarrow> jsval option"
  JSON_stringify :: "jsval \<Rightarrow> jsstring"
  projectRoot :: jsstring
  forcedPy :: jsstring

text \<open>
  The child process handle: the payloads handed to \<open>py.stdin.write\<close> by the calls that
  returned.  Whether the worker ever reads them is not the program's to know.
\<close>

record child =
  stdin :: "jsstring list"

text \<open>
  A registered hotkey callback is a closure.  The one created at startup captures
  nothing; the one created by \<open>hotkey:set\<close> captures the handler's \<open>language\<close> argument.
\<close>

datatype handler = RestoredToggle | BoundToggle jsval

text \<open>
  The module-level variables of \<open>main.js\<close> (\<open>win\<close>, \<open>py\<close>, \<open>running\<close>,
  \<open>registeredShortcut\<close>, \<open>lastProgress\<close>, \<open>store\<close>), and what the program does to its
  surroundings: \<open>sent\<close> lists the messages sent to the renderer on channel
  \<open>server-event\<close>, \<open>shortcuts\<close> is the table of \<open>globalShortcut\<close>, \<open>load_pending\<close>
  says that the one-shot \<open>did-finish-load\<close> listener is installed, and \<open>uncaught\<close> lists
  the exceptions that no handler of the program caught.
\<close>

record state =
  win :: bool
  py :: "child option"
  running :: bool
  registeredShortcut :: jsval
  lastProgress :: "nat option"
  store :: "(jsstring \<rightharpoonup> jsval) option"
  sent :: "jsval list"
  shortcuts :: "jsstring \<rightharpoonup> handler"
  load_pending :: bool
  uncaught :: "exn list"

definition initial :: "(jsstring \<rightharpoonup> jsval) option \<Rightarrow> state" where
  "initial st =
     \<lparr>win = False, py = None, running = False, registeredShortcut = JNull,
      lastProgress = None, store = st, sent = [], shortcuts = Map.empty,
      load_pending = False, uncaught = []\<rparr>"

text \<open>\<open>win?.webContents.send('server-event', e)\<close>\<close>

definition send_event :: "jsval \<Rightarrow> state \<Rightarrow> state" where
  "send_event e s = (if win s then s\<lparr>sent := sent s @ [e]\<rparr> else s)"

definition stderr_event :: "jsstring \<Rightarrow> jsval" where
  "stderr_event d = JObj [(js ''event'', JStr (js ''stderr'')), (js ''data'', JStr d)]"

definition log_event :: "jsstring \<Rightarrow> jsval" where
  "log_event d = JObj [(js ''event'', JStr (js ''log'')), (js ''data'', JStr d)]"

definition progress_event :: "nat \<Rightarrow> jsstring \<Rightarrow> jsval" where
  "progress_event pct msg =
     JObj [(js ''event'', JStr (js ''progress'')), (js ''percent'', JNum (int pct)),
           (js ''message'', JStr msg)]"

definition exit_event :: "jsval \<Rightarrow> jsval \<Rightarrow> jsval" where
  "exit_event code signal =
     JObj [(js ''event'', JStr (js ''exit'')), (js ''code'', code), (js ''signal'', signal)]"

definition pref_event :: "jsstring \<Rightarrow> jsval \<Rightarrow> jsval" where
  "pref_event name v = JObj [(js ''event'', JStr name), (js ''value'', v)]"

text \<open>\<open>store?.get(k)\<close>, \<open>if (store) store.set(k, v)\<close>, \<open>if (store) store.delete(k)\<close>\<close>

definition store_get :: "state \<Rightarrow> jsstring \<Rightarrow> jsval" where
  "store_get s k =
     (case store s of None \<Rightarrow> JUndefined
      | Some m \<Rightarrow> (case m k of None \<Rightarrow> JUndefined | Some v \<Rightarrow> v))"

definition store_set :: "jsstring \<Rightarrow> jsval \<Rightarrow> state \<Rightarrow> state" where
  "store_set k v s =
     (case store s of None \<Rightarrow> s | Some m \<Rightarrow> s\<lparr>store := Some (m(k \<mapsto> v))\<rparr>)"

definition store_delete :: "jsstring \<Rightarrow> state \<Rightarrow> state" where
  "store_delete k s =
     (case store s of None \<Rightarrow> s | Some m \<Rightarrow> s\<lparr>store := Some (m(k := None))\<rparr>)"


section \<open>The error-stream listener\<close>

definition is_digit :: "nat \<Rightarrow> bool" where
  "is_digit c = (48 \<le> c \<and> c \<le> 57)"

text \<open>The class \<open>\w\<close>: digits, ASCII letters and the underscore.\<close>

definition is_word_char :: "nat \<Rightarrow> bool" where
  "is_word_char c = (is_digit c \<or> (65 \<le> c \<and> c \<le> 90) \<or> (97 \<le> c \<and> c \<le> 122) \<or> c = 95)"

text \<open>
  \<open>\b\<close> between the code unit before the position (if any) and the rest of the text:
  exactly one side is a word character.
\<close>

definition word_boundary :: "nat option \<Rightarrow> jsstring \<Rightarrow> bool" where
  "word_boundary prev rest =
     ((case prev of None \<Rightarrow> False | Some c \<Rightarrow> is_word_char c) \<noteq>
      (case rest of [] \<Rightarrow> False | c # _ \<Rightarrow> is_word_char c))"

text \<open>
  \<open>([0-9]{1,2}|100)%\<close> at the head of \<open>r\<close>, in the order the backtracking matcher
  tries it: two digits, one digit, then the literal \<open>100\<close>.  The result is the text of
  the group.
\<close>

definition percent_group :: "jsstring \<Rightarrow> jsstring option" where
  "percent_group r =
     (if 3 \<le> length r \<and> is_digit (r ! 0) \<and> is_digit (r ! 1) \<and> r ! 2 = 37 then Some (take 2 r)
      else if 2 \<le> length r \<and> is_digit (r ! 0) \<and> r ! 1 = 37 then Some (take 1 r)
      else if take 4 r = [49, 48, 48, 37] then Some (take 3 r)
      else None)"

text \<open>\<open>(\b|\()([0-9]{1,2}|100)%\<close> with the match starting exactly here.\<close>

definition match_here :: "nat option \<Rightarrow> jsstring \<Rightarrow> jsstring option" where
  "match_here prev r =
     (case (if word_boundary prev r then percent_group r else None) of
        Some g \<Rightarrow> Some g
      | None \<Rightarrow> (case r of [] \<Rightarrow> None | c # r' \<Rightarrow> if c = 40 then percent_group r' else None))"

text \<open>The leftmost start position that matches wins.\<close>

fun regex_search :: "nat option \<Rightarrow> jsstring \<Rightarrow> jsstring option" where
  "regex_search prev [] = match_here prev []"
| "regex_search prev (c # cs) =
     (case match_here prev (c # cs) of
        Some g \<Rightarrow> Some g
      | None \<Rightarrow> regex_search (Some c) cs)"

text \<open>\<open>text.match(/(\b|\()([0-9]{1,2}|100)%/)\<close>: \<open>None\<close> for \<open>null\<close>, else \<open>m[2]\<close>.\<close>

definition text_match :: "jsstring \<Rightarrow> jsstring option" where
  "text_match text = regex_search None text"

text \<open>\<open>Number\<close> on a string of decimal digits.\<close>

definition js_Number :: "jsstring \<Rightarrow> nat" where
  "js_Number ds = foldl (\<lambda>n c. 10 * n + (c - 48)) 0 ds"

text \<open>\<open>String.prototype.trim\<close>: white space and line terminators go, at both ends.\<close>

definition is_js_space :: "nat \<Rightarrow> bool" where
  "is_js_space c =
     (c \<in> {9, 10, 11, 12, 13, 32, 160, 5760, 8232, 8233, 8239, 8287, 12288, 65279}
      \<or> (8192 \<le> c \<and> c \<le> 8202))"

definition trim :: "jsstring \<Rightarrow> jsstring" where
  "trim s = rev (dropWhile is_js_space (rev (dropWhile is_js_space s)))"

text \<open>\<open>py.stderr.on('data', ...)\<close>\<close>

definition stderr_on_data :: "state \<Rightarrow> jsstring \<Rightarrow> state" where
  "stderr_on_data s text =
     (case text_match text of
        Some g \<Rightarrow>
          (let pct = js_Number g
           in send_event (progress_event pct (trim text)) (s\<lparr>lastProgress := Some pct\<rparr>))
      | None \<Rightarrow> send_event (stderr_event text) s)"


section \<open>The output-stream listener\<close>

text \<open>
  \<open>split(/\r?\n/)\<close>: a separator is \<open>\r\n\<close> or \<open>\n\<close>; a lone \<open>\r\<close> stays in its
  line.
\<close>

fun split_lines :: "jsstring \<Rightarrow> jsstring list" where
  "split_lines [] = [[]]"
| "split_lines [c] = (if c = 10 then [[], []] else [[c]])"
| "split_lines (c # d # cs) =
     (if c = 13 \<and> d = 10 then [] # split_lines cs
      else if c = 10 then [] # split_lines (d # cs)
      else (case split_lines (d # cs) of [] \<Rightarrow> [[c]] | l # ls \<Rightarrow> (c # l) # ls))"

text \<open>\<open>data.toString().split(/\r?\n/).filter(Boolean)\<close>\<close>

definition lines_of :: "jsstring \<Rightarrow> jsstring list" where
  "lines_of data = filter (\<lambda>l. l \<noteq> []) (split_lines data)"

text \<open>
  The body of the \<open>try\<close> block for one line: \<open>JSON.parse\<close> may throw, and so may
  \<open>evt.event\<close> when the line is the JSON text \<open>null\<close>.
\<close>

definition stdout_try :: "platform \<Rightarrow> state \<Rightarrow> jsstring \<Rightarrow> exn + state" where
  "stdout_try P s line =
     (case JSON_parse P line of
        None \<Rightarrow> Inl SyntaxError
      | Some evt \<Rightarrow>
          (case get_prop evt (js ''event'') of
             Inl e \<Rightarrow> Inl e
           | Inr ev \<Rightarrow>
               (let s1 = (if ev = JStr (js ''started'') then s\<lparr>running := True\<rparr> else s);
                    s2 = (if ev = JStr (js ''stopped'') then s1\<lparr>running := False\<rparr> else s1)
                in Inr (send_event evt s2))))"

text \<open>\<open>try { ... } catch (e) { send the line as a log event }\<close>\<close>

definition stdout_line :: "platform \<Rightarrow> state \<Rightarrow> jsstring \<Rightarrow> state" where
  "stdout_line P s line =
     (case stdout_try P s line of
        Inl e \<Rightarrow> send_event (log_event line) s
      | Inr s' \<Rightarrow> s')"

text \<open>\<open>py.stdout.on('data', ...)\<close>\<close>

definition stdout_on_data :: "platform \<Rightarrow> state \<Rightarrow> jsstring \<Rightarrow> state" where
  "stdout_on_data P s data = foldl (stdout_line P) s (lines_of data)"


section \<open>Process life cycle and command dispatch\<close>

text \<open>\<open>py.on('close', ...)\<close> and \<open>py.on('error', ...)\<close>\<close>

definition py_on_close :: "jsval \<Rightarrow> jsval \<Rightarrow> state \<Rightarrow> state" where
  "py_on_close code signal s = send_event (exit_event code signal) s"

definition py_on_error :: "jsstring \<Rightarrow> state \<Rightarrow> state" where
  "py_on_error msg s = send_event (stderr_event (js ''Failed to spawn python: '' @ msg)) s"

definition interpreter_missing :: "platform \<Rightarrow> jsstring" where
  "interpreter_missing P =
     js ''Required interpreter missing: '' @ forcedPy P @
     js ''. Create it and install deps (python3 -m venv .venv && source .venv/bin/activate && pip install -r requirements.txt) at '' @
     projectRoot P"

definition spawning :: "platform \<Rightarrow> jsstring" where
  "spawning P =
     js ''Spawning Python: '' @ forcedPy P @ js '' (cwd='' @ projectRoot P @ js '')''"

text \<open>
  \<open>startPython\<close>; \<open>exists\<close> is the answer of \<open>fs.existsSync(forcedPy)\<close>.  \<open>spawn\<close>
  returns a handle whether or not the process comes to life: a failure arrives later as
  an \<open>error\<close> event.
\<close>

definition startPython :: "platform \<Rightarrow> bool \<Rightarrow> state \<Rightarrow> state" where
  "startPython P exists s =
     (if \<not> exists then send_event (stderr_event (interpreter_missing P)) s
      else (send_event (log_event (spawning P)) s)\<lparr>py := Some \<lparr>stdin = []\<rparr>\<rparr>)"

text \<open>
  No listener is attached to \<open>py.stdin\<close>.  When a write fails after the call has returned
  (a broken pipe), the stream emits an \<open>error\<close> event, and an \<open>error\<close> event without a
  listener is thrown: the exception reaches no handler of the program.
\<close>

definition stdin_on_error :: "jsstring \<Rightarrow> state \<Rightarrow> state" where
  "stdin_on_error msg s = s\<lparr>uncaught := uncaught s @ [Error msg]\<rparr>"

text \<open>
  What the call \<open>py.stdin.write(payload)\<close> does is the environment's choice: it returns,
  having taken the payload, or it throws an error with a message.  The second case is
  there because the source has a \<open>catch\<close> for it; a failure of the pipe is not of this
  kind, it arrives later as the \<open>error\<close> event above.
\<close>

datatype write_outcome = WriteReturns | WriteThrows jsstring

definition stdin_write :: "write_outcome \<Rightarrow> jsstring \<Rightarrow> child \<Rightarrow> exn + child" where
  "stdin_write wo payload h =
     (case wo of
        WriteReturns \<Rightarrow> Inr (h\<lparr>stdin := stdin h @ [payload]\<rparr>)
      | WriteThrows msg \<Rightarrow> Inl (Error msg))"

fun message :: "exn \<Rightarrow> jsstring" where
  "message (Error msg) = msg"
| "message SyntaxError = []"
| "message TypeError = []"

definition payload_of :: "platform \<Rightarrow> jsstring \<Rightarrow> jsval \<Rightarrow> jsstring" where
  "payload_of P cmd args =
     JSON_stringify P
       (JObj [(js ''cmd'', JStr cmd),
              (js ''args'', if args = JUndefined then JObj [] else args)]) @ [10]"

text \<open>\<open>sendCmd(cmd, args = {})\<close>\<close>

definition sendCmd :: "platform \<Rightarrow> write_outcome \<Rightarrow> jsstring \<Rightarrow> jsval \<Rightarrow> state \<Rightarrow> state" where
  "sendCmd P wo cmd args s =
     (let payload = payload_of P cmd args
      in case py s of
           None \<Rightarrow> send_event (stderr_event (js ''Python server is not running yet.'')) s
         | Some h \<Rightarrow>
             (case stdin_write wo payload h of
                Inr h' \<Rightarrow> s\<lparr>py := Some h'\<rparr>
              | Inl e \<Rightarrow>
                  send_event (stderr_event (js ''Failed to send command: '' @ message e)) s))"

text \<open>The handlers of \<open>cmd:load\<close>, \<open>cmd:start\<close>, \<open>cmd:stop\<close> and \<open>cmd:status\<close>\<close>

definition cmd_load :: "platform \<Rightarrow> write_outcome \<Rightarrow> jsval \<Rightarrow> state \<Rightarrow> state" where
  "cmd_load P wo args s =
     sendCmd P wo (js ''load'') args
       (if truthy (opt_prop args (js ''model_name''))
        then store_set (js ''model'') (opt_prop args (js ''model_name'')) s else s)"

definition cmd_start :: "platform \<Rightarrow> write_outcome \<Rightarrow> jsval \<Rightarrow> state \<Rightarrow> state" where
  "cmd_start P wo args s =
     sendCmd P wo (js ''start'') args
       (if truthy (opt_prop args (js ''language''))
        then store_set (js ''language'') (opt_prop args (js ''language'')) s else s)"

definition cmd_stop :: "platform \<Rightarrow> write_outcome \<Rightarrow> state \<Rightarrow> state" where
  "cmd_stop P wo s = sendCmd P wo (js ''stop'') (JObj []) s"

definition cmd_status :: "platform \<Rightarrow> write_outcome \<Rightarrow> state \<Rightarrow> state" where
  "cmd_status P wo s = sendCmd P wo (js ''status'') (JObj []) s"


section \<open>The global hotkey\<close>

text \<open>
  \<open>globalShortcut.register(accelerator, callback)\<close> of the windowing framework.  It throws
  unless the accelerator is a string that names a key (the empty string names none);
  it returns \<open>false\<close> when this application already holds the accelerator or the system
  refuses it; otherwise it enters the callback in the table and returns \<open>true\<close>.  Whether
  a well-formed request is granted, refused or rejected by the parser of accelerators
  is the environment's choice.
\<close>

datatype reg_outcome = Granted | Refused | Rejected

definition globalShortcut_register ::
  "reg_outcome \<Rightarrow> jsval \<Rightarrow> handler \<Rightarrow> (jsstring \<rightharpoonup> handler) \<Rightarrow>
     exn + bool \<times> (jsstring \<rightharpoonup> handler)" where
  "globalShortcut_register oc accelerator h tab =
     (case accelerator of
        JStr a \<Rightarrow>
          (if a = [] then Inl TypeError
           else (case oc of
                   Rejected \<Rightarrow> Inl TypeError
                 | Refused \<Rightarrow> Inr (False, tab)
                 | Granted \<Rightarrow>
                     (if tab a \<noteq> None then Inr (False, tab) else Inr (True, tab(a \<mapsto> h)))))
      | _ \<Rightarrow> Inl TypeError)"

definition globalShortcut_unregister ::
  "jsval \<Rightarrow> (jsstring \<rightharpoonup> handler) \<Rightarrow> exn + (jsstring \<rightharpoonup> handler)" where
  "globalShortcut_unregister accelerator tab =
     (case accelerator of JStr a \<Rightarrow> Inr (tab(a := None)) | _ \<Rightarrow> Inl TypeError)"

text \<open>
  The block both \<open>hotkey:set\<close> and \<open>hotkey:clear\<close> open with:
  \<open>if (registeredShortcut) { globalShortcut.unregister(registeredShortcut);
  registeredShortcut = null; }\<close>
\<close>

definition unregister_current :: "state \<Rightarrow> exn + state" where
  "unregister_current s =
     (if truthy (registeredShortcut s)
      then (case globalShortcut_unregister (registeredShortcut s) (shortcuts s) of
              Inl e \<Rightarrow> Inl e
            | Inr tab \<Rightarrow> Inr (s\<lparr>shortcuts := tab, registeredShortcut := JNull\<rparr>))
      else Inr s)"

text \<open>
  The rest of the \<open>try\<close> block of \<open>hotkey:set\<close>: register the toggle, and on success
  record and save the accelerator.  The result is the handler's return value and the
  state it leaves.
\<close>

definition register_toggle :: "reg_outcome \<Rightarrow> jsval \<Rightarrow> jsval \<Rightarrow> state \<Rightarrow> bool \<times> state" where
  "register_toggle oc accelerator language s =
     (case globalShortcut_register oc accelerator (BoundToggle language) (shortcuts s) of
        Inl e \<Rightarrow> (False, s)
      | Inr (ok, tab) \<Rightarrow>
          (if ok
           then (True, store_set (js ''hotkey'') accelerator
                         (s\<lparr>shortcuts := tab, registeredShortcut := accelerator\<rparr>))
           else (False, s\<lparr>shortcuts := tab\<rparr>)))"

text \<open>The handler of \<open>hotkey:set\<close>; any exception makes it return \<open>false\<close>.\<close>

definition hotkey_set :: "reg_outcome \<Rightarrow> jsval \<Rightarrow> jsval \<Rightarrow> state \<Rightarrow> bool \<times> state" where
  "hotkey_set oc accelerator language s =
     (case unregister_current s of
        Inl e \<Rightarrow> (False, s)
      | Inr s1 \<Rightarrow> register_toggle oc accelerator language s1)"

text \<open>The handler of \<open>hotkey:clear\<close>\<close>

definition hotkey_clear :: "state \<Rightarrow> bool \<times> state" where
  "hotkey_clear s =
     (case unregister_current s of
        Inl e \<Rightarrow> (False, s)
      | Inr s1 \<Rightarrow> (True, store_delete (js ''hotkey'') s1))"

text \<open>
  The two callbacks.  Both read \<open>running\<close> when they are called; the restored one also
  reads the stored language then, the bound one uses the language it captured.
\<close>

fun run_handler :: "platform \<Rightarrow> write_outcome \<Rightarrow> handler \<Rightarrow> state \<Rightarrow> state" where
  "run_handler P wo RestoredToggle s =
     (if running s then sendCmd P wo (js ''stop'') (JObj []) s
      else sendCmd P wo (js ''start'')
             (JObj [(js ''language'',
                     if truthy (store_get s (js ''language'')) then store_get s (js ''language'')
                     else JStr (js ''en''))]) s)"
| "run_handler P wo (BoundToggle language) s =
     (if running s then sendCmd P wo (js ''stop'') (JObj []) s
      else sendCmd P wo (js ''start'') (JObj [(js ''language'', language)]) s)"

text \<open>A key press: the system calls the callback the table holds for the accelerator.\<close>

definition hotkey_press :: "platform \<Rightarrow> write_outcome \<Rightarrow> jsstring \<Rightarrow> state \<Rightarrow> state" where
  "hotkey_press P wo a s =
     (case shortcuts s a of None \<Rightarrow> s | Some h \<Rightarrow> run_handler P wo h s)"


section \<open>Startup\<close>

text \<open>
  The registration at the end of the \<open>did-finish-load\<close> callback:
  \<open>try { const ok = globalShortcut.register(savedHotkey, ...);
  if (ok) registeredShortcut = savedHotkey; } catch {}\<close>
\<close>

definition restore_hotkey :: "reg_outcome \<Rightarrow> jsval \<Rightarrow> state \<Rightarrow> state" where
  "restore_hotkey oc savedHotkey s =
     (case globalShortcut_register oc savedHotkey RestoredToggle (shortcuts s) of
        Inl e \<Rightarrow> s
      | Inr (ok, tab) \<Rightarrow>
          (if ok then s\<lparr>shortcuts := tab, registeredShortcut := savedHotkey\<rparr>
           else s\<lparr>shortcuts := tab\<rparr>))"

text \<open>The \<open>did-finish-load\<close> callback\<close>

definition did_finish_load :: "platform \<Rightarrow> bool \<Rightarrow> reg_outcome \<Rightarrow> state \<Rightarrow> state" where
  "did_finish_load P exists oc s =
     (let s0 = startPython P exists s;
          savedModel = store_get s0 (js ''model'');
          savedLanguage = store_get s0 (js ''language'');
          savedHotkey = store_get s0 (js ''hotkey'');
          s1 = (if truthy savedModel
                then send_event (pref_event (js ''pref:model'') savedModel) s0 else s0);
          s2 = (if truthy savedLanguage
                then send_event (pref_event (js ''pref:language'') savedLanguage) s1 else s1);
          s3 = (if truthy savedHotkey
                then send_event (pref_event (js ''pref:hotkey'') savedHotkey) s2 else s2)
      in if truthy savedHotkey \<and> truthy savedLanguage
         then restore_hotkey oc savedHotkey s3 else s3)"

text \<open>
  \<open>createWindow\<close>, and the callback of \<open>app.whenReady()\<close>, which creates the window and
  installs the one-shot \<open>did-finish-load\<close> listener on it.
\<close>

definition createWindow :: "state \<Rightarrow> state" where
  "createWindow s = s\<lparr>win := True\<rparr>"

definition whenReady :: "state \<Rightarrow> state" where
  "whenReady s = (createWindow s)\<lparr>load_pending := True\<rparr>"


section \<open>The event loop\<close>

text \<open>
  Everything that can reach the main process, with the environment's answers (does the
  interpreter exist, is the accelerator granted, does the write return) as arguments.
\<close>

datatype input =
    AppReady
  | DidFinishLoad bool reg_outcome
  | PyError jsstring
  | StdoutData jsstring
  | StderrData jsstring
  | PyClose jsval jsval
  | StdinError jsstring
  | CmdLoad jsval write_outcome
  | CmdStart jsval write_outcome
  | CmdStop write_outcome
  | CmdStatus write_outcome
  | HotkeySet jsval jsval reg_outcome
  | HotkeyClear
  | HotkeyPress jsstring write_outcome

text \<open>
  One turn of the loop.  \<open>whenReady\<close> resolves once; the \<open>did-finish-load\<close> listener
  runs once; the listeners on \<open>py\<close> exist only after \<open>spawn\<close>.  The listeners on
  \<open>activate\<close> and \<open>window-all-closed\<close> assign none of the variables but \<open>win\<close>, which
  stays set, and have no case here.
\<close>

fun step :: "platform \<Rightarrow> state \<Rightarrow> input \<Rightarrow> state" where
  "step P s AppReady = (if win s then s else whenReady s)"
| "step P s (DidFinishLoad exists oc) =
     (if load_pending s then did_finish_load P exists oc (s\<lparr>load_pending := False\<rparr>) else s)"
| "step P s (PyError msg) = (if py s = None then s else py_on_error msg s)"
| "step P s (StdoutData data) = (if py s = None then s else stdout_on_data P s data)"
| "step P s (StderrData data) = (if py s = None then s else stderr_on_data s data)"
| "step P s (PyClose code signal) = (if py s = None then s else py_on_close code signal s)"
| "step P s (StdinError msg) = (if py s = None then s else stdin_on_error msg s)"
| "step P s (CmdLoad args wo) = cmd_load P wo args s"
| "step P s (CmdStart args wo) = cmd_start P wo args s"
| "step P s (CmdStop wo) = cmd_stop P wo s"
| "step P s (CmdStatus wo) = cmd_status P wo s"
| "step P s (HotkeySet accelerator language oc) = snd (hotkey_set oc accelerator language s)"
| "step P s HotkeyClear = snd (hotkey_clear s)"
| "step P s (HotkeyPress a wo) = hotkey_press P wo a s"

definition run :: "platform \<Rightarrow> state \<Rightarrow> input list \<Rightarrow> state" where
  "run P s ins = foldl (step P) s ins"


section \<open>A concrete platform\<close>

text \<open>
  To evaluate the program on examples, the platform parameters need values.  \<open>json_text\<close>
  writes a value of the model the way \<open>JSON.stringify\<close> does (no indentation): strings
  quoted and escaped, properties with an undefined value left out, an undefined array
  element written as \<open>null\<close>.
\<close>

definition hex_digit :: "nat \<Rightarrow> nat" where
  "hex_digit n = (if n < 10 then 48 + n else 87 + n)"

definition unicode_escape :: "nat \<Rightarrow> jsstring" where
  "unicode_escape c =
     [92, 117, hex_digit (c div 4096 mod 16), hex_digit (c div 256 mod 16),
      hex_digit (c div 16 mod 16), hex_digit (c mod 16)]"

definition quote_unit :: "nat \<Rightarrow> jsstring" where
  "quote_unit c =
     (if c = 8 then [92, 98] else if c = 9 then [92, 116] else if c = 10 then [92, 110]
      else if c = 12 then [92, 102] else if c = 13 then [92, 114]
      else if c = 34 then [92, 34] else if c = 92 then [92, 92]
      else if c < 32 \<or> (55296 \<le> c \<and> c \<le> 57343) then unicode_escape c
      else [c])"

fun quote_units :: "jsstring \<Rightarrow> jsstring" where
  "quote_units [] = []"
| "quote_units [c] = quote_unit c"
| "quote_units (c # d # cs) =
     (if 55296 \<le> c \<and> c \<le> 56319 \<and> 56320 \<le> d \<and> d \<le> 57343
      then c # d # quote_units cs
      else quote_unit c @ quote_units (d # cs))"

definition quote :: "jsstring \<Rightarrow> jsstring" where
  "quote s = [34] @ quote_units s @ [34]"

fun decimal :: "nat \<Rightarrow> jsstring" where
  "decimal n = (if n < 10 then [48 + n] else decimal (n div 10) @ [48 + n mod 10])"

declare decimal.simps [simp del]

fun join :: "jsstring list \<Rightarrow> jsstring" where
  "join [] = []"
| "join [x] = x"
| "join (x # y # ys) = x @ [44] @ join (y # ys)"

fun json_text :: "jsval \<Rightarrow> jsstring" where
  "json_text JUndefined = js ''undefined''"
| "json_text JNull = js ''null''"
| "json_text (JBool b) = (if b then js ''true'' else js ''false'')"
| "json_text (JNum n) = (if n < 0 then [45] @ decimal (nat (- n)) else decimal (nat n))"
| "json_text (JStr s) = quote s"
| "json_text (JArr vs) =
     [91] @ join (map (\<lambda>v. if v = JUndefined then js ''null'' else json_text v) vs) @ [93]"
| "json_text (JObj kvs) =
     [123] @ join (map (\<lambda>kv. quote (fst kv) @ [58] @ json_text (snd kv))
                     (filter (\<lambda>kv. snd kv \<noteq> JUndefined) kvs)) @ [125]"

definition started_evt :: jsval where
  "started_evt = JObj [(js ''event'', JStr (js ''started''))]"

definition stopped_evt :: jsval where
  "stopped_evt = JObj [(js ''event'', JStr (js ''stopped''))]"

definition start_record :: jsval where
  "start_record =
     JObj [(js ''cmd'', JStr (js ''start'')),
           (js ''args'', JObj [(js ''language'', JStr (js ''en''))])]"

text \<open>
  A parser that knows the two acknowledgements of the protocol and one command record,
  as \<open>json_text\<close> writes them, and rejects every other line; it agrees with \<open>JSON.parse\<close> on
  the lines the examples feed it.
\<close>

definition demo_parse :: "jsstring \<Rightarrow> jsval option" where
  "demo_parse line =
     (if line = json_text started_evt then Some started_evt
      else if line = json_text stopped_evt then Some stopped_evt
      else if line = json_text start_record then Some start_record
      else None)"

definition demo :: platform where
  "demo =
     \<lparr>JSON_parse = demo_parse, JSON_stringify = json_text,
      projectRoot = js ''/opt/whisper-dictation'',
      forcedPy = js ''/opt/whisper-dictation/.venv/bin/python''\<rparr>"

text \<open>
  A session: the window opens, the page loads and the worker is spawned (no saved
  preferences), and the worker acknowledges a start.
\<close>

definition spawned_state :: state where
  "spawned_state = run demo (initial (Some Map.empty)) [AppReady, DidFinishLoad True Refused]"

definition started_state :: state where
  "started_state = step demo spawned_state (StdoutData (json_text started_evt @ [10]))"


section \<open>Percentages in a text, by position\<close>

text \<open>
  The code unit before position \<open>i\<close> of the text and the suffix from \<open>i\<close> on decide
  whether \<open>\b\<close> holds there, and whether an opening parenthesis stands before \<open>i\<close>.
\<close>

definition word_boundary_at :: "jsstring \<Rightarrow> nat \<Rightarrow> bool" where
  "word_boundary_at text i =
     word_boundary (if i = 0 then None else Some (text ! (i - 1))) (drop i text)"

definition paren_before :: "jsstring \<Rightarrow> nat \<Rightarrow> bool" where
  "paren_before text i = (0 < i \<and> text ! (i - 1) = 40)"

text \<open>
  What the pattern of the listener accepts as a number: \<open>r\<close> begins with \<open>n\<close> digits and
  a percent sign, where the digits are one or two, or the three digits \<open>100\<close>.
\<close>

definition regex_number :: "jsstring \<Rightarrow> nat \<Rightarrow> bool" where
  "regex_number r n =
     (n < length r \<and> r ! n = 37 \<and>
      ((n = 1 \<or> n = 2) \<and> (\<forall>c \<in> set (take n r). is_digit c) \<or> n = 3 \<and> take n r = [49, 48, 48]))"

definition pattern_at :: "jsstring \<Rightarrow> nat \<Rightarrow> nat \<Rightarrow> bool" where
  "pattern_at text i n =
     (regex_number (drop i text) n \<and> (word_boundary_at text i \<or> paren_before text i))"

text \<open>
  What the specification describes: one to three digits with a value of at most 100 and a
  percent sign, preceded by a word boundary or an opening parenthesis.
\<close>

definition spec_number :: "jsstring \<Rightarrow> nat \<Rightarrow> bool" where
  "spec_number r n =
     (1 \<le> n \<and> n \<le> 3 \<and> n < length r \<and> (\<forall>c \<in> set (take n r). is_digit c) \<and> r ! n = 37 \<and>
      js_Number (take n r) \<le> 100)"

definition spec_percent_at :: "jsstring \<Rightarrow> nat \<Rightarrow> nat \<Rightarrow> bool" where
  "spec_percent_at text i n =
     (spec_number (drop i text) n \<and> (word_boundary_at text i \<or> paren_before text i))"

text \<open>Two chunks of error text: a download progress line, and a line without a percentage.\<close>

definition download_chunk :: jsstring where
  "download_chunk = js ''Downloading model'' @ [8230] @ js '' (45%)'' @ [10]"

definition warning_chunk :: jsstring where
  "warning_chunk = js ''warning: a5% done''"


section \<open>Runs of the event loop\<close>

text \<open>
  A line of this chunk of worker output parses to a value whose \<open>event\<close> property is the
  string \<open>name\<close>.
\<close>

definition decodes :: "platform \<Rightarrow> jsstring \<Rightarrow> input \<Rightarrow> bool" where
  "decodes P name i =
     (case i of
        StdoutData data \<Rightarrow>
          list_ex (\<lambda>line. case JSON_parse P line of
                            None \<Rightarrow> False
                          | Some evt \<Rightarrow> get_prop evt (js ''event'') = Inr (JStr name))
                  (lines_of data)
      | _ \<Rightarrow> False)"

text \<open>The worker process has exited.\<close>

fun is_exit :: "input \<Rightarrow> bool" where
  "is_exit (PyClose code signal) = True"
| "is_exit i = False"

text \<open>The inputs that make the program call \<open>sendCmd\<close>.\<close>

fun is_dispatch :: "input \<Rightarrow> bool" where
  "is_dispatch (CmdLoad args wo) = True"
| "is_dispatch (CmdStart args wo) = True"
| "is_dispatch (CmdStop wo) = True"
| "is_dispatch (CmdStatus wo) = True"
| "is_dispatch (HotkeyPress a wo) = True"
| "is_dispatch i = False"

text \<open>The steps of a run: the state before, the input, the state after.\<close>

fun transitions :: "platform \<Rightarrow> state \<Rightarrow> input list \<Rightarrow> (state \<times> input \<times> state) list" where
  "transitions P s [] = []"
| "transitions P s (i # ins) = (s, i, step P s i) # transitions P (step P s i) ins"


text \<open>
  A chunk of worker output with a banner, an empty line and a line ended by \<open>\r\n\<close>; and
  a session in which the renderer asks for a start and a stop and the worker acknowledges
  each.
\<close>

definition banner_chunk :: jsstring where
  "banner_chunk = js ''Loaded model tiny'' @ [10, 10] @ js ''ok'' @ [13, 10]"

definition session :: "input list" where
  "session =
     [CmdStart (JObj [(js ''language'', JStr (js ''en''))]) WriteReturns,
      StdoutData (json_text started_evt @ [10]),
      CmdStop WriteReturns,
      StdoutData (json_text stopped_evt @ [10])]"


section \<open>The state of the hotkey\<close>

text \<open>
  What the program records agrees with the table of the system: either nothing is
  recorded and the table is empty, or the recorded accelerator is a non-empty string,
  the only entry of the table, and the one the preference store holds (when there is a
  store).
\<close>

definition hotkey_consistent :: "state \<Rightarrow> bool" where
  "hotkey_consistent s =
     (case registeredShortcut s of
        JNull \<Rightarrow> dom (shortcuts s) = {}
      | JStr a \<Rightarrow>
          a \<noteq> [] \<and> dom (shortcuts s) = {a} \<and>
          (case store s of None \<Rightarrow> True | Some m \<Rightarrow> m (js ''hotkey'') = Some (JStr a))
      | _ \<Rightarrow> False)"

text \<open>The session after the renderer has bound the toggle to F9.\<close>

definition bound_state :: state where
  "bound_state =
     step demo spawned_state (HotkeySet (JStr (js ''F9'')) (JStr (js ''en'')) Granted)"

text \<open>The inputs that change the binding: \<open>hotkey:set\<close> and \<open>hotkey:clear\<close>.\<close>

fun rebinds :: "input \<Rightarrow> bool" where
  "rebinds (HotkeySet accelerator language oc) = True"
| "rebinds HotkeyClear = True"
| "rebinds i = False"

text \<open>
  A session that starts with a saved hotkey and a saved language, so that the startup
  code restores the binding; the same state after the language entry has gone from the
  preferences; and a request from the renderer to start in German, which also saves that
  language.
\<close>

definition saved_prefs :: "jsstring \<rightharpoonup> jsval" where
  "saved_prefs = [js ''hotkey'' \<mapsto> JStr (js ''F9''), js ''language'' \<mapsto> JStr (js ''fr'')]"

definition restored_state :: state where
  "restored_state = run demo (initial (Some saved_prefs)) [AppReady, DidFinishLoad True Granted]"

definition restored_without_language :: state where
  "restored_without_language =
     restored_state\<lparr>store := Some [js ''hotkey'' \<mapsto> JStr (js ''F9'')]\<rparr>"

definition german :: input where
  "german = CmdStart (JObj [(js ''language'', JStr (js ''de''))]) WriteReturns"

text \<open>
  Three more states: the window is open and the page not yet loaded (a model is saved);
  the page has loaded and the interpreter was missing; the worker was spawned and has
  exited with code 1.
\<close>

definition ready_state :: state where
  "ready_state = step demo (initial (Some [js ''model'' \<mapsto> JStr (js ''tiny'')])) AppReady"

definition unstarted_state :: state where
  "unstarted_state = step demo ready_state (DidFinishLoad False Refused)"



section \<open>Basic facts\<close>

lemma send_event_sel [simp]:
  "win (send_event e s) = win s"
  "py (send_event e s) = py s"
  "running (send_event e s) = running s"
  "registeredShortcut (send_event e s) = registeredShortcut s"
  "lastProgress (send_event e s) = lastProgress s"
  "store (send_event e s) = store s"
  "shortcuts (send_event e s) = shortcuts s"
  "load_pending (send_event e s) = load_pending s"
  "uncaught (send_event e s) = uncaught s"
  "sent (send_event e s) = sent s @ (if win s then [e] else [])"
  by (simp_all add: send_event_def)

lemma spawned_state_eq:
  "spawned_state =
     \<lparr>win = True, py = Some \<lparr>stdin = []\<rparr>, running = False, registeredShortcut = JNull,
      lastProgress = None, store = Some Map.empty, sent = [log_event (spawning demo)],
      shortcuts = Map.empty, load_pending = False, uncaught = []\<rparr>"
  by (simp add: spawned_state_def run_def initial_def createWindow_def whenReady_def did_finish_load_def
      startPython_def send_event_def store_get_def Let_def)

lemma spawning_demo:
  "spawning demo = js ''Spawning Python: /opt/whisper-dictation/.venv/bin/python (cwd=/opt/whisper-dictation)''"
  by (simp add: spawning_def demo_def js_def)

lemma sent_spawned_state:
  "sent spawned_state =
     [JObj [(js ''event'', JStr (js ''log'')),
            (js ''data'', JStr (js ''Spawning Python: /opt/whisper-dictation/.venv/bin/python (cwd=/opt/whisper-dictation)''))]]"
  by (simp add: spawned_state_eq log_event_def spawning_demo)

lemma demo_parse_started: "demo_parse (json_text started_evt) = Some started_evt"
  by (simp add: demo_parse_def)

lemma json_text_started:
  "json_text started_evt =
     js ''{'' @ [34] @ js ''event'' @ [34, 58, 34] @ js ''started'' @ [34] @ js ''}''"
  by (simp add: started_evt_def js_def quote_def quote_unit_def)

lemma lines_of_started: "lines_of (json_text started_evt @ [10]) = [json_text started_evt]"
  by (simp add: json_text_started lines_of_def js_def)

lemma started_state_eq:
  "started_state = spawned_state\<lparr>running := True, sent := sent spawned_state @ [started_evt]\<rparr>"
  by (simp add: started_state_def spawned_state_eq stdout_on_data_def lines_of_started
      stdout_line_def stdout_try_def demo_def demo_parse_started send_event_def)
     (simp add: started_evt_def js_def)

lemma stdin_on_error_sel [simp]:
  "win (stdin_on_error msg s) = win s"
  "py (stdin_on_error msg s) = py s"
  "running (stdin_on_error msg s) = running s"
  "registeredShortcut (stdin_on_error msg s) = registeredShortcut s"
  "lastProgress (stdin_on_error msg s) = lastProgress s"
  "store (stdin_on_error msg s) = store s"
  "sent (stdin_on_error msg s) = sent s"
  "shortcuts (stdin_on_error msg s) = shortcuts s"
  "load_pending (stdin_on_error msg s) = load_pending s"
  "uncaught (stdin_on_error msg s) = uncaught s @ [Error msg]"
  by (simp_all add: stdin_on_error_def)

lemma json_text_start_record:
  \<open>json_text start_record = js ''{"cmd":"start","args":{"language":"en"}}''\<close>
  by (simp add: start_record_def js_def quote_def quote_unit_def)

lemma store_set_sel [simp]:
  "win (store_set k v s) = win s"
  "py (store_set k v s) = py s"
  "running (store_set k v s) = running s"
  "registeredShortcut (store_set k v s) = registeredShortcut s"
  "lastProgress (store_set k v s) = lastProgress s"
  "sent (store_set k v s) = sent s"
  "shortcuts (store_set k v s) = shortcuts s"
  "load_pending (store_set k v s) = load_pending s"
  "uncaught (store_set k v s) = uncaught s"
  "store (store_set k v s) = map_option (\<lambda>m. m(k \<mapsto> v)) (store s)"
  by (simp_all add: store_set_def split: option.splits)

lemma store_delete_sel [simp]:
  "win (store_delete k s) = win s"
  "py (store_delete k s) = py s"
  "running (store_delete k s) = running s"
  "registeredShortcut (store_delete k s) = registeredShortcut s"
  "lastProgress (store_delete k s) = lastProgress s"
  "sent (store_delete k s) = sent s"
  "shortcuts (store_delete k s) = shortcuts s"
  "load_pending (store_delete k s) = load_pending s"
  "uncaught (store_delete k s) = uncaught s"
  "store (store_delete k s) = map_option (\<lambda>m. m(k := None)) (store s)"
  by (simp_all add: store_delete_def split: option.splits)

lemma sendCmd_sel [simp]:
  "win (sendCmd P wo cmd args s) = win s"
  "running (sendCmd P wo cmd args s) = running s"
  "registeredShortcut (sendCmd P wo cmd args s) = registeredShortcut s"
  "lastProgress (sendCmd P wo cmd args s) = lastProgress s"
  "store (sendCmd P wo cmd args s) = store s"
  "shortcuts (sendCmd P wo cmd args s) = shortcuts s"
  "load_pending (sendCmd P wo cmd args s) = load_pending s"
  "uncaught (sendCmd P wo cmd args s) = uncaught s"
  by (simp_all add: sendCmd_def Let_def split: option.splits sum.splits)


section \<open>The progress scraper\<close>

text \<open>The group of the pattern, read off the first code units of the text.\<close>

lemma list_shape4:
  obtains "r = []" | a where "r = [a]" | a b where "r = [a, b]" | a b c where "r = [a, b, c]"
  | a b c d rest where "r = a # b # c # d # rest"
  by (metis list.exhaust)

lemma regex_number_cases:
  "regex_number r n \<longleftrightarrow>
     (n = 1 \<and> 1 < length r \<and> is_digit (r ! 0) \<and> r ! 1 = 37)
   \<or> (n = 2 \<and> 2 < length r \<and> is_digit (r ! 0) \<and> is_digit (r ! 1) \<and> r ! 2 = 37)
   \<or> (n = 3 \<and> 3 < length r \<and> r ! 0 = 49 \<and> r ! 1 = 48 \<and> r ! 2 = 48 \<and> r ! 3 = 37)"
  by (cases r rule: list_shape4) (auto simp: regex_number_def)

lemma percent_group_iff:
  "percent_group r = Some g \<longleftrightarrow> (\<exists>n. regex_number r n \<and> g = take n r)"
  by (cases r rule: list_shape4) (auto simp: percent_group_def regex_number_cases is_digit_def)

lemma percent_group_None_iff:
  "percent_group r = None \<longleftrightarrow> (\<forall>n. \<not> regex_number r n)"
  by (cases r rule: list_shape4) (auto simp: percent_group_def regex_number_cases is_digit_def)

lemma regex_number_unique: "regex_number r n \<Longrightarrow> regex_number r m \<Longrightarrow> n = m"
  by (auto simp: regex_number_cases is_digit_def)

lemma regex_number_digit: "regex_number r n \<Longrightarrow> r \<noteq> [] \<and> is_digit (r ! 0)"
  by (auto simp: regex_number_cases is_digit_def)


lemma pattern_at_here:
  "pattern_at (pre @ r) (length pre) n \<longleftrightarrow>
     regex_number r n \<and>
     (word_boundary (if pre = [] then None else Some (last pre)) r \<or> (pre \<noteq> [] \<and> last pre = 40))"
  by (cases "pre = []")
     (auto simp: pattern_at_def word_boundary_at_def paren_before_def nth_append last_conv_nth)

lemma pattern_at_beyond: "length text \<le> i \<Longrightarrow> \<not> pattern_at text i n"
  by (simp add: pattern_at_def regex_number_def)

lemma regex_search_leftmost:
  assumes "prev = (if pre = [] then None else Some (last pre))"
    and "\<forall>j<length pre. \<forall>n. \<not> pattern_at (pre @ r) j n"
    and "\<forall>n. pattern_at (pre @ r) (length pre) n \<longrightarrow> word_boundary prev r"
  shows "case regex_search prev r of
           None \<Rightarrow> \<forall>i n. \<not> pattern_at (pre @ r) i n
         | Some g \<Rightarrow> \<exists>i n. pattern_at (pre @ r) i n \<and> g = take n (drop i (pre @ r))
                        \<and> (\<forall>j<i. \<forall>m. \<not> pattern_at (pre @ r) j m)"
  using assms
proof (induction r arbitrary: pre prev)
  case Nil
  have "match_here prev [] = None"
    by (simp add: match_here_def percent_group_def)
  moreover have "\<not> pattern_at pre i n" for i n
    using Nil.prems(2) pattern_at_beyond [of pre i n] by (cases "i < length pre") auto
  ultimately show ?case by simp
next
  case (Cons c cs)
  let ?text = "pre @ c # cs"
  show ?case
  proof (cases "match_here prev (c # cs)")
    case (Some g)
    show ?thesis
    proof (cases "word_boundary prev (c # cs) \<and> percent_group (c # cs) = Some g")
      case True
      then obtain n where n: "regex_number (c # cs) n" "g = take n (c # cs)"
        by (auto simp: percent_group_iff)
      with True Cons.prems(1) have "pattern_at ?text (length pre) n"
        by (simp add: pattern_at_here)
      with n Cons.prems(2)
      have "\<exists>i n. pattern_at ?text i n \<and> g = take n (drop i ?text)
                  \<and> (\<forall>j<i. \<forall>m. \<not> pattern_at ?text j m)"
        by (intro exI [where x = "length pre"] exI [where x = n]) simp
      with Some show ?thesis by simp
    next
      case False
      with Some have c: "c = 40" and g: "percent_group cs = Some g"
        by (auto simp: match_here_def split: if_splits option.splits)
      then obtain n where n: "regex_number cs n" "g = take n cs"
        by (auto simp: percent_group_iff)
      have here: "pattern_at ((pre @ [c]) @ cs) (length (pre @ [c])) n"
        unfolding pattern_at_here using n c by simp
      have none: "\<not> pattern_at ?text j m" if "j < Suc (length pre)" for j m
      proof (cases "j < length pre")
        case True
        with Cons.prems(2) show ?thesis by simp
      next
        case False
        with that have "j = length pre" by simp
        moreover have "\<not> regex_number (c # cs) m"
          using regex_number_digit [of "c # cs" m] c by (auto simp: is_digit_def)
        ultimately show ?thesis by (simp add: pattern_at_here)
      qed
      from here n none
      have "\<exists>i n. pattern_at ?text i n \<and> g = take n (drop i ?text)
                  \<and> (\<forall>j<i. \<forall>m. \<not> pattern_at ?text j m)"
        by (intro exI [where x = "Suc (length pre)"] exI [where x = n]) simp
      with Some show ?thesis by simp
    qed
  next
    case None
    have p1: "Some c = (if pre @ [c] = [] then None else Some (last (pre @ [c])))" by simp
    have p2: "\<forall>j<length (pre @ [c]). \<forall>n. \<not> pattern_at ((pre @ [c]) @ cs) j n"
    proof (intro allI impI)
      fix j n assume j: "j < length (pre @ [c])"
      show "\<not> pattern_at ((pre @ [c]) @ cs) j n"
      proof (cases "j < length pre")
        case True
        with Cons.prems(2) show ?thesis by simp
      next
        case False
        with j have jl: "j = length pre" by simp
        show ?thesis
        proof
          assume pa: "pattern_at ((pre @ [c]) @ cs) j n"
          with jl have pa': "pattern_at ?text (length pre) n" by simp
          with Cons.prems(3) have "word_boundary prev (c # cs)" by blast
          moreover from pa' have "regex_number (c # cs) n" by (simp add: pattern_at_here)
          then have "percent_group (c # cs) \<noteq> None" by (auto simp: percent_group_None_iff)
          ultimately show False using None by (auto simp: match_here_def)
        qed
      qed
    qed
    have p3: "\<forall>n. pattern_at ((pre @ [c]) @ cs) (length (pre @ [c])) n \<longrightarrow> word_boundary (Some c) cs"
    proof (intro allI impI)
      fix n assume "pattern_at ((pre @ [c]) @ cs) (length (pre @ [c])) n"
      then have rn: "regex_number cs n" and alt: "word_boundary (Some c) cs \<or> c = 40"
        unfolding pattern_at_here by auto
      from rn have "percent_group cs \<noteq> None" by (auto simp: percent_group_None_iff)
      with None have "c \<noteq> 40" by (auto simp: match_here_def split: if_splits option.splits)
      with alt show "word_boundary (Some c) cs" by simp
    qed
    from Cons.IH [OF p1 p2 p3] None show ?thesis by (simp split: option.splits)
  qed
qed

lemma text_match_cases:
  "text_match text = None \<and> (\<forall>i n. \<not> pattern_at text i n)
   \<or> (\<exists>i n. pattern_at text i n \<and> text_match text = Some (take n (drop i text))
             \<and> (\<forall>j<i. \<forall>m. \<not> pattern_at text j m))"
proof -
  have "\<forall>n. pattern_at ([] @ text) (length ([] :: jsstring)) n \<longrightarrow> word_boundary None text"
    unfolding pattern_at_here by simp
  then show ?thesis
    using regex_search_leftmost [where prev = None and pre = "[]" and r = "text"]
    by (simp add: text_match_def split: option.splits)
qed

lemma text_match_leftmost:
  assumes "pattern_at text i n" and "\<forall>j<i. \<forall>m. \<not> pattern_at text j m"
  shows "text_match text = Some (take n (drop i text))"
proof -
  from text_match_cases [of "text"] assms(1)
  obtain i' n' where h: "pattern_at text i' n'" "text_match text = Some (take n' (drop i' text))"
      "\<forall>j<i'. \<forall>m. \<not> pattern_at text j m" by auto
  from h(1,3) assms have "i' = i" by (meson nat_neq_iff)
  moreover from this h(1) assms(1) have "n' = n"
    by (auto simp: pattern_at_def dest: regex_number_unique)
  ultimately show ?thesis using h(2) by simp
qed

lemma text_match_none:
  assumes "\<forall>i n. \<not> pattern_at text i n"
  shows "text_match text = None"
  using text_match_cases [of "text"] assms by auto

lemma regex_number_value: "regex_number r n \<Longrightarrow> js_Number (take n r) \<le> 100"
  by (cases r rule: list_shape4) (auto simp: regex_number_cases js_Number_def is_digit_def)

lemma pattern_at_percent:
  "pattern_at text j m \<Longrightarrow> (m = 1 \<or> m = 2 \<or> m = 3) \<and> j + m < length text \<and> text ! (j + m) = 37"
  by (auto simp: pattern_at_def regex_number_cases)

lemma download_chunk_percent: "k < length download_chunk \<Longrightarrow> download_chunk ! k = 37 \<Longrightarrow> k = 22"
proof -
  assume "k < length download_chunk" and p: "download_chunk ! k = 37"
  then have "k < 25" by (simp add: download_chunk_def js_def)
  then have "k = 0 \<or> k = 1 \<or> k = 2 \<or> k = 3 \<or> k = 4 \<or> k = 5 \<or> k = 6 \<or> k = 7 \<or> k = 8 \<or> k = 9 \<or> k = 10 \<or> k = 11 \<or> k = 12 \<or> k = 13 \<or> k = 14 \<or> k = 15 \<or> k = 16 \<or> k = 17 \<or> k = 18 \<or> k = 19 \<or> k = 20 \<or> k = 21 \<or> k = 22 \<or> k = 23 \<or> k = 24" by arith
  with p show ?thesis by (auto simp: download_chunk_def js_def)
qed

lemma download_chunk_pattern: "pattern_at download_chunk 20 2"
  by (simp add: download_chunk_def js_def pattern_at_def regex_number_cases word_boundary_at_def word_boundary_def paren_before_def is_word_char_def is_digit_def)

lemma download_chunk_left: "\<forall>j<20. \<forall>m. \<not> pattern_at download_chunk j m"
proof (intro allI impI notI)
  fix j m assume j: "j < (20::nat)" and p: "pattern_at download_chunk j m"
  from pattern_at_percent [OF p] download_chunk_percent [of "j + m"]
  have "j + m = 22" "m = 1 \<or> m = 2 \<or> m = 3" by auto
  with j have "j = 19 \<and> m = 3" by arith
  with p show False
    by (simp add: download_chunk_def js_def pattern_at_def regex_number_cases)
qed

lemma warning_chunk_percent: "k < length warning_chunk \<Longrightarrow> warning_chunk ! k = 37 \<Longrightarrow> k = 11"
proof -
  assume "k < length warning_chunk" and p: "warning_chunk ! k = 37"
  then have "k < 17" by (simp add: warning_chunk_def js_def)
  then have "k = 0 \<or> k = 1 \<or> k = 2 \<or> k = 3 \<or> k = 4 \<or> k = 5 \<or> k = 6 \<or> k = 7 \<or> k = 8 \<or> k = 9 \<or> k = 10 \<or> k = 11 \<or> k = 12 \<or> k = 13 \<or> k = 14 \<or> k = 15 \<or> k = 16" by arith
  with p show ?thesis by (auto simp: warning_chunk_def js_def)
qed

lemma warning_chunk_none: "\<forall>i n. \<not> pattern_at warning_chunk i n"
proof (intro allI notI)
  fix j m assume p: "pattern_at warning_chunk j m"
  from pattern_at_percent [OF p] warning_chunk_percent [of "j + m"]
  have "j + m = 11" "m = 1 \<or> m = 2 \<or> m = 3" by auto
  then have "j = 10 \<and> m = 1 \<or> j = 9 \<and> m = 2 \<or> j = 8 \<and> m = 3" by arith
  with p show False
    by (auto simp: warning_chunk_def js_def pattern_at_def regex_number_cases word_boundary_at_def word_boundary_def paren_before_def is_word_char_def is_digit_def)
qed


lemma pattern_at_spec: "pattern_at text i n \<Longrightarrow> spec_percent_at text i n"
proof -
  assume p: "pattern_at text i n"
  then have r: "regex_number (drop i text) n" by (simp add: pattern_at_def)
  then have "\<forall>c \<in> set (take n (drop i text)). is_digit c"
    by (auto simp: regex_number_def is_digit_def)
  with r regex_number_value [OF r] have "spec_number (drop i text) n"
    by (auto simp: spec_number_def regex_number_cases)
  with p show ?thesis by (simp add: spec_percent_at_def pattern_at_def)
qed

text \<open>
  C2 (as amended).  For every error-stream chunk that contains one or two digits, or the
  three digits 100, followed by a percent sign and preceded by a word boundary or an
  opening parenthesis, the scraper emits a progress event whose percent is the value (at
  most 100) of the leftmost such number and whose message is the trimmed chunk, and it
  updates the last progress; for every chunk with no such substring, and so for every
  chunk without a substring of the kind the specification describes, it emits a stderr
  event carrying the full chunk.
\<close>

theorem progress_scraper_leftmost:
  "(pattern_at text i n \<and> (\<forall>j<i. \<forall>m. \<not> pattern_at text j m) \<longrightarrow>
      stderr_on_data s text =
        s\<lparr>lastProgress := Some (js_Number (take n (drop i text))),
          sent := sent s @
            (if win s
             then [JObj [(js ''event'', JStr (js ''progress'')),
                         (js ''percent'', JNum (int (js_Number (take n (drop i text))))),
                         (js ''message'', JStr (trim text))]]
             else [])\<rparr>
      \<and> js_Number (take n (drop i text)) \<le> 100)
   \<and> ((\<forall>i n. \<not> pattern_at text i n) \<longrightarrow>
      stderr_on_data s text =
        s\<lparr>sent := sent s @
            (if win s then [JObj [(js ''event'', JStr (js ''stderr'')), (js ''data'', JStr text)]]
             else [])\<rparr>)
   \<and> ((\<forall>i n. \<not> spec_percent_at text i n) \<longrightarrow>
      stderr_on_data s text =
        s\<lparr>sent := sent s @
            (if win s then [JObj [(js ''event'', JStr (js ''stderr'')), (js ''data'', JStr text)]]
             else [])\<rparr>)"
proof (intro conjI impI)
  assume h: "pattern_at text i n \<and> (\<forall>j<i. \<forall>m. \<not> pattern_at text j m)"
  then have "text_match text = Some (take n (drop i text))"
    by (simp add: text_match_leftmost)
  then show "stderr_on_data s text =
        s\<lparr>lastProgress := Some (js_Number (take n (drop i text))),
          sent := sent s @
            (if win s
             then [JObj [(js ''event'', JStr (js ''progress'')),
                         (js ''percent'', JNum (int (js_Number (take n (drop i text))))),
                         (js ''message'', JStr (trim text))]]
             else [])\<rparr>"
    by (simp add: stderr_on_data_def Let_def send_event_def progress_event_def)
  from h show "js_Number (take n (drop i text)) \<le> 100"
    by (simp add: pattern_at_def regex_number_value)
next
  assume "\<forall>i n. \<not> pattern_at text i n"
  then have "text_match text = None" by (rule text_match_none)
  then show "stderr_on_data s text =
        s\<lparr>sent := sent s @
            (if win s then [JObj [(js ''event'', JStr (js ''stderr'')), (js ''data'', JStr text)]]
             else [])\<rparr>"
    by (simp add: stderr_on_data_def send_event_def stderr_event_def)
next
  assume "\<forall>i n. \<not> spec_percent_at text i n"
  then have "\<forall>i n. \<not> pattern_at text i n" by (blast dest: pattern_at_spec)
  then have "text_match text = None" by (rule text_match_none)
  then show "stderr_on_data s text =
        s\<lparr>sent := sent s @
            (if win s then [JObj [(js ''event'', JStr (js ''stderr'')), (js ''data'', JStr text)]]
             else [])\<rparr>"
    by (simp add: stderr_on_data_def send_event_def stderr_event_def)
qed


text \<open>
  The download line has its only number at position 20, after the parenthesis, and yields
  a progress event with 45 and the trimmed line; the warning has a percent sign after
  \<open>a5\<close>, where no word boundary stands before the digit, and yields a stderr event.
\<close>

theorem progress_scraper_leftmost_witness:
  "pattern_at download_chunk 20 2
   \<and> sent (stderr_on_data spawned_state download_chunk)
       = sent spawned_state @
         [JObj [(js ''event'', JStr (js ''progress'')), (js ''percent'', JNum 45),
                (js ''message'', JStr (js ''Downloading model'' @ [8230] @ js '' (45%)''))]]
   \<and> lastProgress (stderr_on_data spawned_state download_chunk) = Some 45
   \<and> sent (stderr_on_data spawned_state warning_chunk)
       = sent spawned_state @
         [JObj [(js ''event'', JStr (js ''stderr'')),
                (js ''data'', JStr (js ''warning: a5% done''))]]"
  using progress_scraper_leftmost [of download_chunk 20 2 spawned_state]
    progress_scraper_leftmost [of warning_chunk 0 0 spawned_state] download_chunk_pattern download_chunk_left warning_chunk_none
  by (simp add: spawned_state_eq)
     (simp add: download_chunk_def warning_chunk_def js_def js_Number_def trim_def is_js_space_def)


text \<open>
  C2 as stated fails: the chunk \<open>045%\<close> holds three digits with the value 45, at a word
  boundary and followed by a percent sign, and the scraper emits a stderr event for it,
  not a progress event.
\<close>

theorem leading_zero_percent_not_scraped:
  "spec_percent_at (js ''045%'') 0 3
   \<and> js_Number (take 3 (drop 0 (js ''045%''))) = 45
   \<and> sent (stderr_on_data spawned_state (js ''045%''))
       = sent spawned_state @
         [JObj [(js ''event'', JStr (js ''stderr'')), (js ''data'', JStr (js ''045%''))]]"
  by (simp add: spec_percent_at_def spec_number_def js_def js_Number_def is_digit_def
      word_boundary_at_def word_boundary_def is_word_char_def stderr_on_data_def
      text_match_def match_here_def percent_group_def spawned_state_eq stderr_event_def)


section \<open>The output-stream decoder\<close>

lemma stdout_line_invalid:
  "JSON_parse P line = None \<Longrightarrow> stdout_line P s line = send_event (log_event line) s"
  by (simp add: stdout_line_def stdout_try_def)

lemma stdout_line_one_event:
  assumes "win s"
  shows "\<exists>e. sent (stdout_line P s line) = sent s @ [e] \<and> win (stdout_line P s line)
             \<and> (JSON_parse P line = None \<longrightarrow> e = log_event line)"
  using assms
  by (auto simp: stdout_line_def stdout_try_def Let_def split: option.splits sum.splits)

lemma stdout_lines_events:
  assumes "win s"
  shows "\<exists>evs. sent (foldl (stdout_line P) s ls) = sent s @ evs \<and> length evs = length ls
             \<and> (\<forall>k<length ls. JSON_parse P (ls ! k) = None \<longrightarrow> evs ! k = log_event (ls ! k))"
  using assms
proof (induction ls arbitrary: s)
  case Nil
  then show ?case by simp
next
  case (Cons l ls)
  from stdout_line_one_event [OF Cons.prems, of P l]
  obtain e where e: "sent (stdout_line P s l) = sent s @ [e]" "win (stdout_line P s l)"
    "JSON_parse P l = None \<longrightarrow> e = log_event l" by auto
  from Cons.IH [OF e(2)]
  obtain evs where evs: "sent (foldl (stdout_line P) (stdout_line P s l) ls) = sent (stdout_line P s l) @ evs"
    "length evs = length ls"
    "\<forall>k<length ls. JSON_parse P (ls ! k) = None \<longrightarrow> evs ! k = log_event (ls ! k)" by auto
  have "\<forall>k<length (l # ls). JSON_parse P ((l # ls) ! k) = None \<longrightarrow> (e # evs) ! k = log_event ((l # ls) ! k)"
    using e(3) evs(3) by (auto simp: nth_Cons split: nat.splits)
  with e(1) evs(1,2) show ?case
    by (intro exI [where x = "e # evs"]) simp
qed

text \<open>
  C3.  For every non-empty output-stream line that is not valid JSON, the decoder catches
  the parser's exception and sends a log event whose payload is the line itself; the
  listener returns normally on every chunk, sends exactly one event for each non-empty
  line of the chunk, in order, and none for an empty line.
\<close>

theorem non_json_line_logged:
  assumes "win s"
  shows "(JSON_parse P line = None \<longrightarrow>
            stdout_try P s line = Inl SyntaxError
            \<and> stdout_line P s line
                = s\<lparr>sent := sent s @
                      [JObj [(js ''event'', JStr (js ''log'')), (js ''data'', JStr line)]]\<rparr>)
       \<and> (\<exists>evs. sent (stdout_on_data P s data) = sent s @ evs
                \<and> length evs = length (lines_of data)
                \<and> (\<forall>k<length evs. JSON_parse P (lines_of data ! k) = None
                      \<longrightarrow> evs ! k = JObj [(js ''event'', JStr (js ''log'')),
                                         (js ''data'', JStr (lines_of data ! k))]))
       \<and> [] \<notin> set (lines_of data)"
proof (intro conjI impI)
  assume "JSON_parse P line = None"
  then show "stdout_try P s line = Inl SyntaxError" by (simp add: stdout_try_def)
next
  assume "JSON_parse P line = None"
  with assms show "stdout_line P s line
                = s\<lparr>sent := sent s @
                      [JObj [(js ''event'', JStr (js ''log'')), (js ''data'', JStr line)]]\<rparr>"
    by (simp add: stdout_line_invalid send_event_def log_event_def)
next
  from stdout_lines_events [OF assms, of P "lines_of data"]
  show "\<exists>evs. sent (stdout_on_data P s data) = sent s @ evs
                \<and> length evs = length (lines_of data)
                \<and> (\<forall>k<length evs. JSON_parse P (lines_of data ! k) = None
                      \<longrightarrow> evs ! k = JObj [(js ''event'', JStr (js ''log'')),
                                         (js ''data'', JStr (lines_of data ! k))])"
    by (auto simp: stdout_on_data_def log_event_def)
next
  show "[] \<notin> set (lines_of data)" by (simp add: lines_of_def)
qed

lemma lines_of_banner: "lines_of banner_chunk = [js ''Loaded model tiny'', js ''ok'']"
  by (simp add: banner_chunk_def lines_of_def js_def)

lemma demo_parse_banner: "demo_parse (js ''Loaded model tiny'') = None" "demo_parse (js ''ok'') = None"
  by (simp_all add: demo_parse_def json_text_started json_text_start_record js_def stopped_evt_def
      quote_def quote_unit_def)

text \<open>
  A banner, an empty line and \<open>ok\<close>: two log events, each with its line, and nothing for
  the empty line.
\<close>

theorem non_json_line_logged_witness:
  "win spawned_state
   \<and> JSON_parse demo (js ''Loaded model tiny'') = None
   \<and> stdout_try demo spawned_state (js ''Loaded model tiny'') = Inl SyntaxError
   \<and> stdout_line demo spawned_state (js ''Loaded model tiny'')
       = spawned_state\<lparr>sent := sent spawned_state @
           [JObj [(js ''event'', JStr (js ''log'')),
                  (js ''data'', JStr (js ''Loaded model tiny''))]]\<rparr>
   \<and> sent (stdout_on_data demo spawned_state banner_chunk)
       = sent spawned_state @
           [JObj [(js ''event'', JStr (js ''log'')),
                  (js ''data'', JStr (js ''Loaded model tiny''))],
            JObj [(js ''event'', JStr (js ''log'')), (js ''data'', JStr (js ''ok''))]]"
  using non_json_line_logged [of spawned_state demo "js ''Loaded model tiny''" banner_chunk]
  by (simp add: spawned_state_eq lines_of_banner demo_def demo_parse_banner stdout_on_data_def
      stdout_line_invalid send_event_def log_event_def)




section \<open>The running flag\<close>

lemma unregister_current_running:
  "unregister_current s = Inr s1 \<Longrightarrow> running s1 = running s"
  by (auto simp: unregister_current_def split: if_splits sum.splits)

lemma hotkey_set_running: "running (snd (hotkey_set oc a l s)) = running s"
  by (auto simp: hotkey_set_def register_toggle_def unregister_current_def
      split: if_splits sum.splits prod.splits)

lemma hotkey_clear_running: "running (snd (hotkey_clear s)) = running s"
  by (auto simp: hotkey_clear_def unregister_current_def split: if_splits sum.splits)

lemma run_handler_running: "running (run_handler P wo h s) = running s"
  by (cases h) simp_all

lemma did_finish_load_running: "running (did_finish_load P ex oc s) = running s"
  by (simp add: did_finish_load_def Let_def startPython_def restore_hotkey_def
      split: sum.splits prod.splits)

lemma stdout_line_running:
  "running (stdout_line P s line) =
     (case JSON_parse P line of
        None \<Rightarrow> running s
      | Some evt \<Rightarrow>
          (if get_prop evt (js ''event'') = Inr (JStr (js ''stopped'')) then False
           else if get_prop evt (js ''event'') = Inr (JStr (js ''started'')) then True
           else running s))"
  by (auto simp: stdout_line_def stdout_try_def Let_def js_def split: option.splits sum.splits)

lemma stdout_lines_started:
  "\<not> running s \<Longrightarrow> running (foldl (stdout_line P) s ls) \<Longrightarrow>
     list_ex (\<lambda>line. case JSON_parse P line of None \<Rightarrow> False
                     | Some evt \<Rightarrow> get_prop evt (js ''event'') = Inr (JStr (js ''started''))) ls"
proof (induction ls arbitrary: s)
  case Nil
  then show ?case by simp
next
  case (Cons l ls)
  show ?case
  proof (cases "running (stdout_line P s l)")
    case True
    with Cons.prems(1) show ?thesis
      by (auto simp: stdout_line_running split: option.splits if_splits)
  next
    case False
    with Cons.IH [of "stdout_line P s l"] Cons.prems(2) show ?thesis by simp
  qed
qed

lemma stdout_lines_stopped:
  "running s \<Longrightarrow> \<not> running (foldl (stdout_line P) s ls) \<Longrightarrow>
     list_ex (\<lambda>line. case JSON_parse P line of None \<Rightarrow> False
                     | Some evt \<Rightarrow> get_prop evt (js ''event'') = Inr (JStr (js ''stopped''))) ls"
proof (induction ls arbitrary: s)
  case Nil
  then show ?case by simp
next
  case (Cons l ls)
  show ?case
  proof (cases "running (stdout_line P s l)")
    case False
    with Cons.prems(1) show ?thesis
      by (auto simp: stdout_line_running split: option.splits if_splits)
  next
    case True
    with Cons.IH [of "stdout_line P s l"] Cons.prems(2) show ?thesis by simp
  qed
qed

lemma step_running:
  "(\<not> running s \<and> running (step P s i) \<longrightarrow> decodes P (js ''started'') i)
   \<and> (running s \<and> \<not> running (step P s i) \<longrightarrow> decodes P (js ''stopped'') i)
   \<and> (is_dispatch i \<longrightarrow> running (step P s i) = running s)"
proof (cases i)
  case (StdoutData data)
  then show ?thesis
    using stdout_lines_started [of s P "lines_of data"] stdout_lines_stopped [of s P "lines_of data"]
    by (auto simp: decodes_def stdout_on_data_def)
qed (auto simp: createWindow_def whenReady_def did_finish_load_running py_on_error_def py_on_close_def
      stderr_on_data_def Let_def cmd_load_def cmd_start_def cmd_stop_def cmd_status_def
      hotkey_set_running hotkey_clear_running hotkey_press_def run_handler_running
      split: option.splits)

text \<open>
  C4.  Along every sequence of inputs, the running flag turns true only in a step that
  decodes a started event from the worker's output, and turns false only in a step that
  decodes a stopped event or in which the process exits; a step that dispatches a
  command, and \<open>sendCmd\<close> itself, leave the flag as it was.
\<close>

theorem run_state_follows_worker:
  "running (sendCmd P wo cmd args s) = running s
   \<and> (\<forall>(s1, i, s2) \<in> set (transitions P s ins).
         (\<not> running s1 \<and> running s2 \<longrightarrow> decodes P (js ''started'') i)
       \<and> (running s1 \<and> \<not> running s2 \<longrightarrow> decodes P (js ''stopped'') i \<or> is_exit i)
       \<and> (is_dispatch i \<longrightarrow> running s2 = running s1))"
proof -
  have "\<forall>(s1, i, s2) \<in> set (transitions P s ins).
         (\<not> running s1 \<and> running s2 \<longrightarrow> decodes P (js ''started'') i)
       \<and> (running s1 \<and> \<not> running s2 \<longrightarrow> decodes P (js ''stopped'') i \<or> is_exit i)
       \<and> (is_dispatch i \<longrightarrow> running s2 = running s1)"
  proof (induction ins arbitrary: s)
    case Nil
    then show ?case by simp
  next
    case (Cons i ins)
    from step_running [of s P i] Cons.IH [of "step P s i"] show ?case by auto
  qed
  then show ?thesis by simp
qed


lemma json_text_stopped:
  "json_text stopped_evt =
     js ''{'' @ [34] @ js ''event'' @ [34, 58, 34] @ js ''stopped'' @ [34] @ js ''}''"
  by (simp add: stopped_evt_def js_def quote_def quote_unit_def)

lemma demo_parse_stopped: "demo_parse (json_text stopped_evt) = Some stopped_evt"
  by (simp add: demo_parse_def json_text_started json_text_stopped js_def)

lemma lines_of_stopped: "lines_of (json_text stopped_evt @ [10]) = [json_text stopped_evt]"
  by (simp add: json_text_stopped lines_of_def js_def)

lemma py_sendCmd: "py (sendCmd P wo cmd args s) = None \<longleftrightarrow> py s = None"
  by (simp add: sendCmd_def Let_def stdin_write_def split: option.splits sum.splits write_outcome.splits)

lemma py_stdout_line [simp]: "py (stdout_line P s line) = py s"
  by (simp add: stdout_line_def stdout_try_def Let_def split: option.splits sum.splits)

lemma py_stdout_on_data [simp]: "py (stdout_on_data P s data) = py s"
proof -
  have "py (foldl (stdout_line P) s ls) = py s" for ls
    by (induction ls arbitrary: s) simp_all
  then show ?thesis by (simp add: stdout_on_data_def)
qed

lemma step_started_running:
  "running (step demo s (StdoutData (json_text started_evt @ [10]))) = (py s \<noteq> None \<or> running s)"
proof (cases "py s")
  case (Some h)
  have "get_prop started_evt (js ''event'') = Inr (JStr (js ''started''))"
    by (simp add: started_evt_def)
  moreover have "js ''started'' \<noteq> js ''stopped''" by (simp add: js_def)
  ultimately show ?thesis using Some
    by (simp add: stdout_on_data_def lines_of_started stdout_line_running demo_def
        demo_parse_started)
qed simp

lemma step_stopped_running:
  "running (step demo s (StdoutData (json_text stopped_evt @ [10]))) = (py s = None \<and> running s)"
proof (cases "py s")
  case (Some h)
  have "get_prop stopped_evt (js ''event'') = Inr (JStr (js ''stopped''))"
    by (simp add: stopped_evt_def)
  then show ?thesis using Some
    by (simp add: stdout_on_data_def lines_of_stopped stdout_line_running demo_def
        demo_parse_stopped)
qed simp

lemma step_dispatch_running:
  "running (step P s (CmdLoad args wo)) = running s"
  "running (step P s (CmdStart args wo)) = running s"
  "running (step P s (CmdStop wo)) = running s"
  "running (step P s (CmdStatus wo)) = running s"
  "running (step P s (HotkeyPress a wo)) = running s"
  by (simp_all add: cmd_load_def cmd_start_def cmd_stop_def cmd_status_def hotkey_press_def
      run_handler_running split: option.splits)

lemma step_py_None:
  "py (step P s (CmdLoad args wo)) = None \<longleftrightarrow> py s = None"
  "py (step P s (CmdStart args wo)) = None \<longleftrightarrow> py s = None"
  "py (step P s (CmdStop wo)) = None \<longleftrightarrow> py s = None"
  "py (step P s (CmdStatus wo)) = None \<longleftrightarrow> py s = None"
  "py (step P s (StdoutData data)) = None \<longleftrightarrow> py s = None"
  by (simp_all add: cmd_load_def cmd_start_def cmd_stop_def cmd_status_def py_sendCmd)

lemma decodes_started: "decodes demo (js ''started'') (StdoutData (json_text started_evt @ [10]))"
  by (simp add: decodes_def lines_of_started demo_def demo_parse_started)
     (simp add: started_evt_def)

lemma decodes_stopped: "decodes demo (js ''stopped'') (StdoutData (json_text stopped_evt @ [10]))"
  by (simp add: decodes_def lines_of_stopped demo_def demo_parse_stopped)
     (simp add: stopped_evt_def)

text \<open>
  In the session the flag changes twice, each time in the step that decodes the worker's
  acknowledgement, and the two dispatches leave it alone.
\<close>

theorem run_state_follows_worker_witness:
  "map (\<lambda>(s1, i, s2). (running s1, running s2)) (transitions demo spawned_state session)
     = [(False, False), (False, True), (True, True), (True, False)]
   \<and> decodes demo (js ''started'') (session ! 1)
   \<and> decodes demo (js ''stopped'') (session ! 3)
   \<and> is_dispatch (session ! 0) \<and> is_dispatch (session ! 2)"
  using run_state_follows_worker [of demo WriteReturns "js ''stop''" "JObj []" spawned_state session]
  by (simp add: session_def step_started_running step_stopped_running step_dispatch_running
      step_py_None decodes_started decodes_stopped del: step.simps)
     (simp add: spawned_state_eq)


section \<open>The exit watcher\<close>

text \<open>
  C1 (as amended).  When the worker process terminates, the exit watcher sends the
  renderer an exit event carrying the exit code and the signal, and leaves the running
  flag as it was: the listener on \<open>close\<close> does not assign \<open>running\<close>, and a step in which
  the flag falls is one that decodes a stopped event.
\<close>

theorem exit_watcher_effect:
  assumes "py s \<noteq> None" and "win s"
  shows "sent (step P s (PyClose code signal))
           = sent s @ [JObj [(js ''event'', JStr (js ''exit'')), (js ''code'', code),
                             (js ''signal'', signal)]]
         \<and> running (step P s (PyClose code signal)) = running s
         \<and> (running s \<and> \<not> running (step P s i) \<longrightarrow> decodes P (js ''stopped'') i)"
  using assms step_running [of s P i] by (simp add: py_on_close_def exit_event_def)

text \<open>
  The worker has acknowledged a start and exits with code 1: the renderer receives the exit
  event after the two earlier ones, and the flag stays set.
\<close>

theorem exit_watcher_effect_witness:
  "py started_state \<noteq> None \<and> win started_state
   \<and> sent (step demo started_state (PyClose (JNum 1) JNull))
       = [JObj [(js ''event'', JStr (js ''log'')),
                (js ''data'', JStr (js ''Spawning Python: /opt/whisper-dictation/.venv/bin/python (cwd=/opt/whisper-dictation)''))],
          JObj [(js ''event'', JStr (js ''started''))],
          JObj [(js ''event'', JStr (js ''exit'')), (js ''code'', JNum 1), (js ''signal'', JNull)]]
   \<and> running started_state
   \<and> running (step demo started_state (PyClose (JNum 1) JNull)) = True
   \<and> running (step demo started_state (StdoutData (json_text stopped_evt @ [10]))) = False
   \<and> decodes demo (js ''stopped'') (StdoutData (json_text stopped_evt @ [10]))"
proof -
  have s: "py started_state \<noteq> None" "win started_state" "running started_state"
    "sent started_state
       = [JObj [(js ''event'', JStr (js ''log'')),
                (js ''data'', JStr (js ''Spawning Python: /opt/whisper-dictation/.venv/bin/python (cwd=/opt/whisper-dictation)''))],
          JObj [(js ''event'', JStr (js ''started''))]]"
    by (simp_all add: started_state_eq sent_spawned_state started_evt_def)
       (simp_all add: spawned_state_eq)
  have f: "running (step demo started_state (StdoutData (json_text stopped_evt @ [10]))) = False"
    using s(1) by (simp add: step_stopped_running del: step.simps)
  from exit_watcher_effect [OF s(1,2), of demo "JNum 1" JNull
      "StdoutData (json_text stopped_evt @ [10])"] s f
  show ?thesis by (simp del: step.simps)
qed

text \<open>
  C1 as stated fails: the worker has acknowledged a start, then exits with code 1; after
  the exit watcher has run, the running flag is still set.
\<close>

theorem exit_leaves_running_set:
  "running started_state \<and> running (step demo started_state (PyClose (JNum 1) JNull))"
  by (simp add: started_state_eq spawned_state_eq py_on_close_def)


section \<open>One hotkey at a time\<close>

lemma hotkey_consistent_cases:
  "hotkey_consistent s \<longleftrightarrow>
     registeredShortcut s = JNull \<and> dom (shortcuts s) = {}
   \<or> (\<exists>a. registeredShortcut s = JStr a \<and> a \<noteq> [] \<and> dom (shortcuts s) = {a}
          \<and> (\<forall>m. store s = Some m \<longrightarrow> m (js ''hotkey'') = Some (JStr a)))"
  by (auto simp: hotkey_consistent_def split: jsval.splits option.splits)

lemma hotkey_keys_differ:
  "js ''hotkey'' \<noteq> js ''model''" "js ''hotkey'' \<noteq> js ''language''"
  by (simp_all add: js_def)

lemma dom_single_remove: "dom m = {a} \<Longrightarrow> m(a := None) = Map.empty"
proof (rule ext)
  fix x assume d: "dom m = {a}"
  show "(m(a := None)) x = Map.empty x"
  proof (cases "x = a")
    case False
    with d have "x \<notin> dom m" by simp
    then show ?thesis by (simp add: domIff)
  qed simp
qed

lemma unregister_current_consistent:
  assumes "hotkey_consistent s"
  shows "\<exists>s1. unregister_current s = Inr s1 \<and> dom (shortcuts s1) = {}
            \<and> registeredShortcut s1 = JNull
            \<and> s1 = s\<lparr>shortcuts := Map.empty, registeredShortcut := JNull\<rparr>"
  using assms
  by (auto simp: hotkey_consistent_cases unregister_current_def globalShortcut_unregister_def
      dom_single_remove)

lemma register_toggle_empty:
  assumes "shortcuts s1 = Map.empty"
  shows "register_toggle oc acc lang s1 =
           (case acc of
              JStr a \<Rightarrow>
                (if a \<noteq> [] \<and> oc = Granted
                 then (True, store_set (js ''hotkey'') acc
                               (s1\<lparr>shortcuts := [a \<mapsto> BoundToggle lang],
                                    registeredShortcut := acc\<rparr>))
                 else (False, s1))
            | _ \<Rightarrow> (False, s1))"
  using assms
  by (cases oc)
     (auto simp: register_toggle_def globalShortcut_register_def split: jsval.splits)

lemma hotkey_set_consistent:
  assumes "hotkey_consistent s"
  shows "hotkey_consistent (snd (hotkey_set oc acc lang s))"
proof -
  from unregister_current_consistent [OF assms]
  obtain s1 where s1: "unregister_current s = Inr s1" "shortcuts s1 = Map.empty"
    "registeredShortcut s1 = JNull" by auto
  then show ?thesis
    by (auto simp: hotkey_set_def register_toggle_empty hotkey_consistent_cases
        split: jsval.splits option.splits)
qed

lemma hotkey_clear_consistent:
  assumes "hotkey_consistent s"
  shows "hotkey_consistent (snd (hotkey_clear s))"
proof -
  from unregister_current_consistent [OF assms]
  obtain s1 where s1: "unregister_current s = Inr s1" "shortcuts s1 = Map.empty"
    "registeredShortcut s1 = JNull" by auto
  then show ?thesis by (simp add: hotkey_clear_def hotkey_consistent_cases)
qed

lemma send_event_consistent [simp]: "hotkey_consistent (send_event e s) = hotkey_consistent s"
  by (simp add: hotkey_consistent_cases)

lemma sendCmd_consistent [simp]:
  "hotkey_consistent (sendCmd P wo cmd args s) = hotkey_consistent s"
  by (simp add: hotkey_consistent_cases)

lemma restore_hotkey_consistent:
  assumes "hotkey_consistent s" and "saved = store_get s (js ''hotkey'')"
  shows "hotkey_consistent (restore_hotkey oc saved s)"
  using assms
  by (cases oc)
     (auto simp: restore_hotkey_def globalShortcut_register_def hotkey_consistent_cases
       store_get_def split: jsval.splits option.splits if_splits)

lemma did_finish_load_consistent:
  assumes "hotkey_consistent s"
  shows "hotkey_consistent (did_finish_load P ex oc s)"
proof -
  have *: "hotkey_consistent (s\<lparr>py := p\<rparr>) = hotkey_consistent s" for p s
    by (simp add: hotkey_consistent_cases)
  have **: "store_get (send_event e s) k = store_get s k" "store_get (s\<lparr>py := p\<rparr>) k = store_get s k"
    for e s k p
    by (simp_all add: store_get_def)
  show ?thesis using assms
    by (auto simp: did_finish_load_def Let_def startPython_def * ** 
        intro!: restore_hotkey_consistent)
qed

lemma hotkey_consistent_cong:
  "registeredShortcut s' = registeredShortcut s \<Longrightarrow> shortcuts s' = shortcuts s \<Longrightarrow>
     store s' = store s \<Longrightarrow> hotkey_consistent s' = hotkey_consistent s"
  by (simp add: hotkey_consistent_cases)

lemma stdout_line_sel [simp]:
  "win (stdout_line P s line) = win s"
  "registeredShortcut (stdout_line P s line) = registeredShortcut s"
  "lastProgress (stdout_line P s line) = lastProgress s"
  "store (stdout_line P s line) = store s"
  "shortcuts (stdout_line P s line) = shortcuts s"
  "load_pending (stdout_line P s line) = load_pending s"
  by (simp_all add: stdout_line_def stdout_try_def Let_def split: option.splits sum.splits)

lemma stdout_on_data_sel [simp]:
  "win (stdout_on_data P s data) = win s"
  "registeredShortcut (stdout_on_data P s data) = registeredShortcut s"
  "lastProgress (stdout_on_data P s data) = lastProgress s"
  "store (stdout_on_data P s data) = store s"
  "shortcuts (stdout_on_data P s data) = shortcuts s"
  "load_pending (stdout_on_data P s data) = load_pending s"
proof -
  have "win (foldl (stdout_line P) s ls) = win s
      \<and> registeredShortcut (foldl (stdout_line P) s ls) = registeredShortcut s
      \<and> lastProgress (foldl (stdout_line P) s ls) = lastProgress s
      \<and> store (foldl (stdout_line P) s ls) = store s
      \<and> shortcuts (foldl (stdout_line P) s ls) = shortcuts s
      \<and> load_pending (foldl (stdout_line P) s ls) = load_pending s" for ls
    by (induction ls arbitrary: s) simp_all
  then show
    "win (stdout_on_data P s data) = win s"
    "registeredShortcut (stdout_on_data P s data) = registeredShortcut s"
    "lastProgress (stdout_on_data P s data) = lastProgress s"
    "store (stdout_on_data P s data) = store s"
    "shortcuts (stdout_on_data P s data) = shortcuts s"
    "load_pending (stdout_on_data P s data) = load_pending s"
    by (simp_all add: stdout_on_data_def)
qed

lemma stderr_on_data_sel [simp]:
  "win (stderr_on_data s data) = win s"
  "py (stderr_on_data s data) = py s"
  "running (stderr_on_data s data) = running s"
  "registeredShortcut (stderr_on_data s data) = registeredShortcut s"
  "store (stderr_on_data s data) = store s"
  "shortcuts (stderr_on_data s data) = shortcuts s"
  "load_pending (stderr_on_data s data) = load_pending s"
  by (simp_all add: stderr_on_data_def Let_def split: option.splits)

lemma step_consistent:
  assumes "hotkey_consistent s"
  shows "hotkey_consistent (step P s i)"
proof (cases i)
  case (DidFinishLoad ex oc)
  have "hotkey_consistent (s\<lparr>load_pending := False\<rparr>)"
    using assms by (simp add: hotkey_consistent_cases)
  with DidFinishLoad assms show ?thesis by (simp add: did_finish_load_consistent)
next
  case (CmdLoad args wo)
  with assms show ?thesis
    by (auto simp: cmd_load_def hotkey_consistent_cases hotkey_keys_differ)
next
  case (CmdStart args wo)
  with assms show ?thesis
    by (auto simp: cmd_start_def hotkey_consistent_cases hotkey_keys_differ)
next
  case (HotkeyPress a wo)
  with assms show ?thesis
    by (cases "shortcuts s a"; cases "the (shortcuts s a)") (simp_all add: hotkey_press_def)
next
  case (StdoutData data)
  with assms show ?thesis
    by (simp add: hotkey_consistent_cong [of "stdout_on_data P s data" s])
next
  case (StderrData data)
  with assms show ?thesis
    by (simp add: hotkey_consistent_cong [of "stderr_on_data s data" s])
next
  case (StdinError msg)
  with assms show ?thesis
    by (simp add: hotkey_consistent_cong [of "stdin_on_error msg s" s])
next
  case AppReady
  with assms show ?thesis
    by (simp add: createWindow_def whenReady_def hotkey_consistent_cong [of "s\<lparr>win := True, load_pending := True\<rparr>" s])
qed (use assms in \<open>simp_all add: py_on_error_def py_on_close_def
      cmd_stop_def cmd_status_def hotkey_set_consistent hotkey_clear_consistent\<close>)

lemma initial_consistent: "hotkey_consistent (initial st)"
  by (simp add: hotkey_consistent_def initial_def)

lemma run_consistent: "hotkey_consistent s \<Longrightarrow> hotkey_consistent (run P s ins)"
  unfolding run_def by (induction ins arbitrary: s) (simp_all add: step_consistent)

text \<open>
  C5.  In every state the program can reach, the table of global shortcuts holds at most
  one entry.  On every rebind the recorded accelerator is unregistered first, so that the
  new registration starts from an empty table and nothing recorded; the handler returns
  true exactly when the accelerator is a non-empty string and the registration is granted,
  and then the new binding is the only one and is the recorded one; when the registration
  returns false or throws, the handler returns false, nothing is recorded and the table is
  empty.
\<close>

theorem single_hotkey_registration:
  assumes "s = run P (initial st) ins"
  shows "finite (dom (shortcuts s)) \<and> card (dom (shortcuts s)) \<le> 1
       \<and> (\<exists>s1. unregister_current s = Inr s1 \<and> dom (shortcuts s1) = {}
                \<and> registeredShortcut s1 = JNull
                \<and> hotkey_set oc acc lang s = register_toggle oc acc lang s1)
       \<and> (fst (hotkey_set oc acc lang s) \<longleftrightarrow> (\<exists>a. acc = JStr a \<and> a \<noteq> []) \<and> oc = Granted)
       \<and> (\<not> fst (hotkey_set oc acc lang s) \<longrightarrow>
            registeredShortcut (snd (hotkey_set oc acc lang s)) = JNull
            \<and> dom (shortcuts (snd (hotkey_set oc acc lang s))) = {})
       \<and> (fst (hotkey_set oc acc lang s) \<longrightarrow>
            registeredShortcut (snd (hotkey_set oc acc lang s)) = acc
            \<and> (\<exists>a. acc = JStr a
                   \<and> shortcuts (snd (hotkey_set oc acc lang s)) = [a \<mapsto> BoundToggle lang]))"
proof -
  from assms have c: "hotkey_consistent s"
    by (simp add: run_consistent initial_consistent)
  from unregister_current_consistent [OF c]
  obtain s1 where s1: "unregister_current s = Inr s1" "shortcuts s1 = Map.empty"
    "registeredShortcut s1 = JNull" by auto
  have hs: "hotkey_set oc acc lang s = register_toggle oc acc lang s1"
    using s1(1) by (simp add: hotkey_set_def)
  from c have "finite (dom (shortcuts s)) \<and> card (dom (shortcuts s)) \<le> 1"
    by (auto simp: hotkey_consistent_cases)
  moreover from s1 hs
  have "\<exists>s1. unregister_current s = Inr s1 \<and> dom (shortcuts s1) = {}
                \<and> registeredShortcut s1 = JNull
                \<and> hotkey_set oc acc lang s = register_toggle oc acc lang s1"
    by simp
  moreover have "fst (hotkey_set oc acc lang s) \<longleftrightarrow> (\<exists>a. acc = JStr a \<and> a \<noteq> []) \<and> oc = Granted"
    by (simp add: hs register_toggle_empty [OF s1(2)] split: jsval.splits)
  moreover have "\<not> fst (hotkey_set oc acc lang s) \<longrightarrow>
            registeredShortcut (snd (hotkey_set oc acc lang s)) = JNull
            \<and> dom (shortcuts (snd (hotkey_set oc acc lang s))) = {}"
    using s1(2,3) by (simp add: hs register_toggle_empty [OF s1(2)] split: jsval.splits)
  moreover have "fst (hotkey_set oc acc lang s) \<longrightarrow>
            registeredShortcut (snd (hotkey_set oc acc lang s)) = acc
            \<and> (\<exists>a. acc = JStr a
                   \<and> shortcuts (snd (hotkey_set oc acc lang s)) = [a \<mapsto> BoundToggle lang])"
    by (simp add: hs register_toggle_empty [OF s1(2)] split: jsval.splits)
  ultimately show ?thesis by blast
qed


lemma bound_state_run:
  "bound_state =
     run demo (initial (Some Map.empty))
       [AppReady, DidFinishLoad True Refused,
        HotkeySet (JStr (js ''F9'')) (JStr (js ''en'')) Granted]"
  by (simp add: bound_state_def spawned_state_def run_def)

lemma bound_state_eq:
  "bound_state =
     spawned_state
       \<lparr>registeredShortcut := JStr (js ''F9''),
        store := Some [js ''hotkey'' \<mapsto> JStr (js ''F9'')],
        shortcuts := [js ''F9'' \<mapsto> BoundToggle (JStr (js ''en''))]\<rparr>"
  by (simp add: bound_state_def spawned_state_eq hotkey_set_def unregister_current_def
      register_toggle_def globalShortcut_register_def store_set_def)
     (simp add: js_def)

text \<open>
  With F9 bound, a granted request for F10 leaves F10 as the only entry, and a refused one
  leaves an empty table and nothing recorded.
\<close>

theorem single_hotkey_registration_witness:
  "bound_state =
     run demo (initial (Some Map.empty))
       [AppReady, DidFinishLoad True Refused,
        HotkeySet (JStr (js ''F9'')) (JStr (js ''en'')) Granted]
   \<and> dom (shortcuts bound_state) = {js ''F9''}
   \<and> fst (hotkey_set Granted (JStr (js ''F10'')) (JStr (js ''de'')) bound_state)
   \<and> shortcuts (snd (hotkey_set Granted (JStr (js ''F10'')) (JStr (js ''de'')) bound_state))
       = [js ''F10'' \<mapsto> BoundToggle (JStr (js ''de''))]
   \<and> fst (hotkey_set Refused (JStr (js ''F10'')) (JStr (js ''de'')) bound_state) = False
   \<and> registeredShortcut (snd (hotkey_set Refused (JStr (js ''F10'')) (JStr (js ''de'')) bound_state))
       = JNull
   \<and> dom (shortcuts (snd (hotkey_set Refused (JStr (js ''F10'')) (JStr (js ''de'')) bound_state)))
       = {}"
proof -
  have f10: "js ''F10'' \<noteq> []" by (simp add: js_def)
  have "dom (shortcuts bound_state) = {js ''F9''}" by (simp add: bound_state_eq)
  with f10
    single_hotkey_registration [OF bound_state_run, of Granted "JStr (js ''F10'')" "JStr (js ''de'')"]
    single_hotkey_registration [OF bound_state_run, of Refused "JStr (js ''F10'')" "JStr (js ''de'')"]
  have "dom (shortcuts bound_state) = {js ''F9''}
   \<and> fst (hotkey_set Granted (JStr (js ''F10'')) (JStr (js ''de'')) bound_state)
   \<and> shortcuts (snd (hotkey_set Granted (JStr (js ''F10'')) (JStr (js ''de'')) bound_state))
       = [js ''F10'' \<mapsto> BoundToggle (JStr (js ''de''))]
   \<and> fst (hotkey_set Refused (JStr (js ''F10'')) (JStr (js ''de'')) bound_state) = False
   \<and> registeredShortcut (snd (hotkey_set Refused (JStr (js ''F10'')) (JStr (js ''de'')) bound_state))
       = JNull
   \<and> dom (shortcuts (snd (hotkey_set Refused (JStr (js ''F10'')) (JStr (js ''de'')) bound_state)))
       = {}"
    by simp
  with bound_state_run show ?thesis by (rule conjI)
qed


section \<open>The toggle\<close>

lemma restore_hotkey_keeps:
  "shortcuts s a = Some h \<Longrightarrow> shortcuts (restore_hotkey oc saved s) a = Some h"
  by (cases oc)
     (auto simp: restore_hotkey_def globalShortcut_register_def split: jsval.splits)

lemma did_finish_load_keeps:
  "shortcuts s a = Some h \<Longrightarrow> shortcuts (did_finish_load P ex oc s) a = Some h"
  by (auto simp: did_finish_load_def Let_def startPython_def intro!: restore_hotkey_keeps)

lemma hotkey_press_shortcuts [simp]: "shortcuts (hotkey_press P wo a s) = shortcuts s"
  by (cases "shortcuts s a"; cases "the (shortcuts s a)") (simp_all add: hotkey_press_def)

lemma step_keeps_binding:
  assumes "shortcuts s a = Some h" and "\<not> rebinds i"
  shows "shortcuts (step P s i) a = Some h"
  using assms
  by (cases i)
     (simp_all add: createWindow_def whenReady_def did_finish_load_keeps py_on_error_def py_on_close_def
       cmd_load_def cmd_start_def cmd_stop_def cmd_status_def)

lemma run_keeps_binding:
  assumes "shortcuts s a = Some h" and "\<forall>i \<in> set ins. \<not> rebinds i"
  shows "shortcuts (run P s ins) a = Some h"
  using assms unfolding run_def
  by (induction ins arbitrary: s) (simp_all add: step_keeps_binding)

lemma hotkey_set_binds:
  assumes "hotkey_set oc (JStr a) lang s0 = (True, s1)"
  shows "shortcuts s1 a = Some (BoundToggle lang)"
  using assms
  by (auto simp: hotkey_set_def register_toggle_def globalShortcut_register_def
      split: sum.splits prod.splits if_splits reg_outcome.splits)

lemma stdout_single_started:
  assumes "lines_of data = [line]" and "JSON_parse P line = Some evt"
    and "get_prop evt (js ''event'') = Inr (JStr (js ''started''))"
  shows "running (stdout_on_data P s data)"
proof -
  have "js ''started'' \<noteq> js ''stopped''" by (simp add: js_def)
  with assms show ?thesis by (simp add: stdout_on_data_def stdout_line_running)
qed

text \<open>
  C6.  The callback bound by \<open>hotkey:set\<close> reads the running flag when the key is
  pressed, not when the key was bound: whatever happened between the binding and the
  press (short of another binding or a clearing), the press dispatches \<open>stop\<close> if the flag
  is set at that moment, and \<open>start\<close> with the language argument otherwise.  In particular,
  once a chunk of worker output carrying a started event has been decoded, the next
  press dispatches \<open>stop\<close>.
\<close>

theorem hotkey_reads_running_at_press:
  assumes "hotkey_set oc (JStr a) lang s0 = (True, s1)"
    and "\<forall>i \<in> set ins. \<not> rebinds i"
    and "s2 = run P s1 ins"
  shows "step P s2 (HotkeyPress a wo) =
           (if running s2 then sendCmd P wo (js ''stop'') (JObj []) s2
            else sendCmd P wo (js ''start'') (JObj [(js ''language'', lang)]) s2)
       \<and> (py s2 \<noteq> None \<and> lines_of data = [line] \<and> JSON_parse P line = Some evt
            \<and> get_prop evt (js ''event'') = Inr (JStr (js ''started'')) \<longrightarrow>
          step P (step P s2 (StdoutData data)) (HotkeyPress a wo) =
            sendCmd P wo (js ''stop'') (JObj []) (step P s2 (StdoutData data)))"
proof -
  from hotkey_set_binds [OF assms(1)] assms(2,3)
  have b: "shortcuts s2 a = Some (BoundToggle lang)" by (simp add: run_keeps_binding)
  then have "step P s2 (HotkeyPress a wo) =
           (if running s2 then sendCmd P wo (js ''stop'') (JObj []) s2
            else sendCmd P wo (js ''start'') (JObj [(js ''language'', lang)]) s2)"
    by (simp add: hotkey_press_def)
  moreover have "step P (step P s2 (StdoutData data)) (HotkeyPress a wo) =
            sendCmd P wo (js ''stop'') (JObj []) (step P s2 (StdoutData data))"
    if "py s2 \<noteq> None" "lines_of data = [line]" "JSON_parse P line = Some evt"
      "get_prop evt (js ''event'') = Inr (JStr (js ''started''))"
    using that b stdout_single_started [of data line P evt s2]
    by (cases "py s2") (simp_all add: hotkey_press_def)
  ultimately show ?thesis by blast
qed


lemma py_sendCmd_returns:
  "py (sendCmd P WriteReturns cmd args s) =
     map_option (\<lambda>h. h\<lparr>stdin := stdin h @ [payload_of P cmd args]\<rparr>) (py s)"
  by (simp add: sendCmd_def Let_def stdin_write_def split: option.splits)

lemma payload_stop:
  \<open>payload_of demo (js ''stop'') (JObj []) = js ''{"cmd":"stop","args":{}}'' @ [10]\<close>
  by (simp add: payload_of_def demo_def js_def quote_def quote_unit_def)

lemma payload_start:
  \<open>payload_of demo (js ''start'') (JObj [(js ''language'', JStr (js ''en''))])
     = js ''{"cmd":"start","args":{"language":"en"}}'' @ [10]\<close>
  \<open>payload_of demo (js ''start'') (JObj [(js ''language'', JStr (js ''de''))])
     = js ''{"cmd":"start","args":{"language":"de"}}'' @ [10]\<close>
  by (simp_all add: payload_of_def demo_def js_def quote_def quote_unit_def)

lemma hotkey_set_bound_state:
  "hotkey_set Granted (JStr (js ''F9'')) (JStr (js ''en'')) spawned_state = (True, bound_state)"
proof -
  have "fst (hotkey_set Granted (JStr (js ''F9'')) (JStr (js ''en'')) spawned_state)"
    by (simp add: spawned_state_eq hotkey_set_def unregister_current_def register_toggle_def
        globalShortcut_register_def js_def)
  then show ?thesis by (simp add: bound_state_def prod_eq_iff)
qed

text \<open>
  F9 is bound while the worker is idle.  A press then writes a start; a press after the
  worker's started event writes a stop.
\<close>

theorem hotkey_reads_running_at_press_witness:
  \<open>hotkey_set Granted (JStr (js ''F9'')) (JStr (js ''en'')) spawned_state = (True, bound_state)
   \<and> running bound_state = False
   \<and> py (step demo bound_state (HotkeyPress (js ''F9'') WriteReturns))
       = Some \<lparr>stdin = [js ''{"cmd":"start","args":{"language":"en"}}'' @ [10]]\<rparr>
   \<and> running (step demo bound_state (StdoutData (json_text started_evt @ [10])))
   \<and> py (step demo (step demo bound_state (StdoutData (json_text started_evt @ [10])))
           (HotkeyPress (js ''F9'') WriteReturns))
       = Some \<lparr>stdin = [js ''{"cmd":"stop","args":{}}'' @ [10]]\<rparr>
   \<and> py (step demo (run demo bound_state [StdoutData (json_text started_evt @ [10])])
           (HotkeyPress (js ''F9'') WriteReturns))
       = Some \<lparr>stdin = [js ''{"cmd":"stop","args":{}}'' @ [10]]\<rparr>\<close>
proof -
  let ?d = "json_text started_evt @ [10]"
  have r1: "running bound_state = False" and p1: "py bound_state = Some \<lparr>stdin = []\<rparr>"
    by (simp_all add: bound_state_eq spawned_state_eq)
  have r2: "running (step demo bound_state (StdoutData ?d))"
    using p1 by (simp add: step_started_running del: step.simps)
  have p2: "py (step demo bound_state (StdoutData ?d)) = Some \<lparr>stdin = []\<rparr>"
    using p1 by simp
  have pre: "py bound_state \<noteq> None \<and> lines_of ?d = [json_text started_evt]
      \<and> JSON_parse demo (json_text started_evt) = Some started_evt
      \<and> get_prop started_evt (js ''event'') = Inr (JStr (js ''started''))"
    using p1 by (simp add: lines_of_started demo_def demo_parse_started) (simp add: started_evt_def)
  have "bound_state = run demo bound_state []" by (simp add: run_def)
  from hotkey_reads_running_at_press
         [OF hotkey_set_bound_state _ this, where wo = WriteReturns and data = ?d
            and line = "json_text started_evt" and evt = started_evt]
       pre r1
  have "step demo bound_state (HotkeyPress (js ''F9'') WriteReturns)
          = sendCmd demo WriteReturns (js ''start'') (JObj [(js ''language'', JStr (js ''en''))])
              bound_state"
    and "step demo (step demo bound_state (StdoutData ?d)) (HotkeyPress (js ''F9'') WriteReturns)
          = sendCmd demo WriteReturns (js ''stop'') (JObj []) (step demo bound_state (StdoutData ?d))"
    by (simp_all add: run_def del: step.simps)
  moreover
  have rn: "run demo bound_state [StdoutData ?d] = step demo bound_state (StdoutData ?d)"
    by (simp add: run_def del: step.simps)
  have nb: "\<forall>i \<in> set [StdoutData ?d]. \<not> rebinds i" by simp
  from hotkey_reads_running_at_press
         [OF hotkey_set_bound_state nb refl, where P = demo and wo = WriteReturns and data = ?d
            and line = "json_text started_evt" and evt = started_evt]
       r2
  have "step demo (run demo bound_state [StdoutData ?d]) (HotkeyPress (js ''F9'') WriteReturns)
          = sendCmd demo WriteReturns (js ''stop'') (JObj []) (step demo bound_state (StdoutData ?d))"
    by (simp add: rn del: step.simps)
  ultimately show ?thesis
    using r1 r2 p1 p2 hotkey_set_bound_state
    by (simp add: py_sendCmd_returns payload_stop payload_start del: step.simps)
qed



section \<open>The language of a start\<close>

text \<open>
  C10.  Every start dispatched by a callback that \<open>hotkey:set\<close> bound carries the language
  given at bind time, whatever the stored preference has become since.  A start dispatched
  by the callback restored at startup carries the language the store holds when the key
  is pressed, and \<open>en\<close> when the store holds none.
\<close>

theorem hotkey_language_source:
  "(hotkey_set oc (JStr a) lang s0 = (True, s1) \<and> (\<forall>i \<in> set ins. \<not> rebinds i)
      \<and> \<not> running (run P s1 ins) \<longrightarrow>
      step P (run P s1 ins) (HotkeyPress a wo) =
        sendCmd P wo (js ''start'') (JObj [(js ''language'', lang)]) (run P s1 ins))
   \<and> (shortcuts s a = Some RestoredToggle \<and> (\<forall>i \<in> set ins. \<not> rebinds i)
      \<and> \<not> running (run P s ins) \<longrightarrow>
      step P (run P s ins) (HotkeyPress a wo) =
        sendCmd P wo (js ''start'')
          (JObj [(js ''language'',
                  if truthy (store_get (run P s ins) (js ''language''))
                  then store_get (run P s ins) (js ''language'') else JStr (js ''en''))])
          (run P s ins))
   \<and> (shortcuts s a = Some RestoredToggle \<and> \<not> running s
      \<and> store_get s (js ''language'') = JUndefined \<longrightarrow>
      step P s (HotkeyPress a wo) =
        sendCmd P wo (js ''start'') (JObj [(js ''language'', JStr (js ''en''))]) s)"
proof (intro conjI impI)
  assume h: "hotkey_set oc (JStr a) lang s0 = (True, s1) \<and> (\<forall>i \<in> set ins. \<not> rebinds i)
      \<and> \<not> running (run P s1 ins)"
  then have "shortcuts s1 a = Some (BoundToggle lang)"
    by (intro hotkey_set_binds [of oc a lang s0 s1]) simp
  with h have "shortcuts (run P s1 ins) a = Some (BoundToggle lang)"
    by (intro run_keeps_binding) simp_all
  with h show "step P (run P s1 ins) (HotkeyPress a wo) =
        sendCmd P wo (js ''start'') (JObj [(js ''language'', lang)]) (run P s1 ins)"
    by (simp add: hotkey_press_def)
next
  assume h: "shortcuts s a = Some RestoredToggle \<and> (\<forall>i \<in> set ins. \<not> rebinds i)
      \<and> \<not> running (run P s ins)"
  then have "shortcuts (run P s ins) a = Some RestoredToggle"
    by (intro run_keeps_binding) simp_all
  with h show "step P (run P s ins) (HotkeyPress a wo) =
        sendCmd P wo (js ''start'')
          (JObj [(js ''language'',
                  if truthy (store_get (run P s ins) (js ''language''))
                  then store_get (run P s ins) (js ''language'') else JStr (js ''en''))])
          (run P s ins)"
    by (simp add: hotkey_press_def)
next
  assume "shortcuts s a = Some RestoredToggle \<and> \<not> running s
      \<and> store_get s (js ''language'') = JUndefined"
  then show "step P s (HotkeyPress a wo) =
        sendCmd P wo (js ''start'') (JObj [(js ''language'', JStr (js ''en''))]) s"
    by (simp add: hotkey_press_def)
qed

lemma step_german:
  "store_get (step demo s german) (js ''language'') = (if store s = None then JUndefined else JStr (js ''de''))"
  "running (step demo s german) = running s"
  "py (step demo s german) = map_option (\<lambda>h. h\<lparr>stdin := stdin h @ [payload_of demo (js ''start'') (JObj [(js ''language'', JStr (js ''de''))])]\<rparr>) (py s)"
  by (simp_all add: german_def cmd_start_def opt_prop_def store_get_def py_sendCmd_returns
      js_def split: option.splits)

lemma restored_state_eq:
  "restored_state =
     \<lparr>win = True, py = Some \<lparr>stdin = []\<rparr>, running = False,
      registeredShortcut = JStr (js ''F9''), lastProgress = None, store = Some saved_prefs,
      sent = [log_event (spawning demo), pref_event (js ''pref:language'') (JStr (js ''fr'')),
              pref_event (js ''pref:hotkey'') (JStr (js ''F9''))],
      shortcuts = [js ''F9'' \<mapsto> RestoredToggle], load_pending = False, uncaught = []\<rparr>"
  by (simp add: restored_state_def run_def initial_def createWindow_def whenReady_def did_finish_load_def
      startPython_def send_event_def store_get_def Let_def saved_prefs_def restore_hotkey_def
      globalShortcut_register_def js_def)



lemma payload_start_fr:
  \<open>payload_of demo (js ''start'') (JObj [(js ''language'', JStr (js ''fr''))])
     = js ''{"cmd":"start","args":{"language":"fr"}}'' @ [10]\<close>
  by (simp add: payload_of_def demo_def js_def quote_def quote_unit_def)

text \<open>
  The renderer asks for German after the binding.  The callback bound with \<open>en\<close> still
  sends \<open>en\<close>; the restored callback sends \<open>fr\<close> before the request, \<open>de\<close> after it, and
  \<open>en\<close> when the store holds no language.
\<close>

theorem hotkey_language_source_witness:
  \<open>hotkey_set Granted (JStr (js ''F9'')) (JStr (js ''en'')) spawned_state = (True, bound_state)
   \<and> store_get (run demo bound_state [german]) (js ''language'') = JStr (js ''de'')
   \<and> py (step demo (run demo bound_state [german]) (HotkeyPress (js ''F9'') WriteReturns))
       = Some \<lparr>stdin = [js ''{"cmd":"start","args":{"language":"de"}}'' @ [10],
                         js ''{"cmd":"start","args":{"language":"en"}}'' @ [10]]\<rparr>
   \<and> shortcuts restored_state (js ''F9'') = Some RestoredToggle
   \<and> py (step demo (run demo restored_state []) (HotkeyPress (js ''F9'') WriteReturns))
       = Some \<lparr>stdin = [js ''{"cmd":"start","args":{"language":"fr"}}'' @ [10]]\<rparr>
   \<and> py (step demo (run demo restored_state [german]) (HotkeyPress (js ''F9'') WriteReturns))
       = Some \<lparr>stdin = [js ''{"cmd":"start","args":{"language":"de"}}'' @ [10],
                         js ''{"cmd":"start","args":{"language":"de"}}'' @ [10]]\<rparr>
   \<and> store_get restored_without_language (js ''language'') = JUndefined
   \<and> py (step demo restored_without_language (HotkeyPress (js ''F9'') WriteReturns))
       = Some \<lparr>stdin = [js ''{"cmd":"start","args":{"language":"en"}}'' @ [10]]\<rparr>\<close>
proof -
  have g: "\<forall>i \<in> set [german]. \<not> rebinds i" "\<forall>i \<in> set ([] :: input list). \<not> rebinds i"
    by (simp_all add: german_def)
  have rg: "run demo s [german] = step demo s german" "run demo s [] = s" for s
    by (simp_all add: run_def)
  have b: "running bound_state = False" "py bound_state = Some \<lparr>stdin = []\<rparr>"
    "store bound_state = Some [js ''hotkey'' \<mapsto> JStr (js ''F9'')]"
    by (simp_all add: bound_state_eq spawned_state_eq)
  have r: "running restored_state = False" "py restored_state = Some \<lparr>stdin = []\<rparr>"
    "store restored_state = Some saved_prefs" "shortcuts restored_state (js ''F9'') = Some RestoredToggle"
    "store_get restored_state (js ''language'') = JStr (js ''fr'')"
    by (simp_all add: restored_state_eq store_get_def saved_prefs_def js_def)
  have w: "running restored_without_language = False"
    "py restored_without_language = Some \<lparr>stdin = []\<rparr>"
    "shortcuts restored_without_language (js ''F9'') = Some RestoredToggle"
    "store_get restored_without_language (js ''language'') = JUndefined"
    by (simp_all add: restored_without_language_def restored_state_eq store_get_def js_def)
  have t: "truthy (JStr (js ''de''))" "truthy (JStr (js ''fr''))" by (simp_all add: js_def)
  note thm1 = hotkey_language_source
      [where oc = Granted and a = "js ''F9''" and lang = "JStr (js ''en'')" and ?s0.0 = spawned_state
         and ?s1.0 = bound_state and ins = "[german]" and P = demo and wo = WriteReturns
         and s = restored_state]
  note thm2 = hotkey_language_source
      [where oc = Granted and a = "js ''F9''" and lang = "JStr (js ''en'')" and ?s0.0 = spawned_state
         and ?s1.0 = bound_state and ins = "[]" and P = demo and wo = WriteReturns
         and s = restored_state]
  note thm3 = hotkey_language_source
      [where oc = Granted and a = "js ''F9''" and lang = "JStr (js ''en'')" and ?s0.0 = spawned_state
         and ?s1.0 = bound_state and ins = "[]" and P = demo and wo = WriteReturns
         and s = restored_without_language]
  from thm1 g b r t hotkey_set_bound_state
  have 1: "step demo (run demo bound_state [german]) (HotkeyPress (js ''F9'') WriteReturns)
            = sendCmd demo WriteReturns (js ''start'') (JObj [(js ''language'', JStr (js ''en''))])
                (step demo bound_state german)"
    and 2: "step demo (run demo restored_state [german]) (HotkeyPress (js ''F9'') WriteReturns)
            = sendCmd demo WriteReturns (js ''start'') (JObj [(js ''language'', JStr (js ''de''))])
                (step demo restored_state german)"
    by (simp_all add: rg step_german del: step.simps)
  from thm2 g r t
  have 3: "step demo (run demo restored_state []) (HotkeyPress (js ''F9'') WriteReturns)
            = sendCmd demo WriteReturns (js ''start'') (JObj [(js ''language'', JStr (js ''fr''))])
                restored_state"
    by (simp add: rg del: step.simps)
  from thm3 w
  have 4: "step demo restored_without_language (HotkeyPress (js ''F9'') WriteReturns)
            = sendCmd demo WriteReturns (js ''start'') (JObj [(js ''language'', JStr (js ''en''))])
                restored_without_language"
    by (simp del: step.simps)
  show ?thesis
    unfolding 1 2 3 4
    using b r w hotkey_set_bound_state
    by (simp add: rg step_german py_sendCmd_returns payload_start payload_start_fr
        del: step.simps)
qed


section \<open>A missing interpreter\<close>

lemma restore_hotkey_sel [simp]:
  "win (restore_hotkey oc saved s) = win s"
  "py (restore_hotkey oc saved s) = py s"
  "running (restore_hotkey oc saved s) = running s"
  "lastProgress (restore_hotkey oc saved s) = lastProgress s"
  "store (restore_hotkey oc saved s) = store s"
  "sent (restore_hotkey oc saved s) = sent s"
  "load_pending (restore_hotkey oc saved s) = load_pending s"
  "uncaught (restore_hotkey oc saved s) = uncaught s"
  by (simp_all add: restore_hotkey_def split: sum.splits prod.splits)

lemma event_kinds_differ:
  "pref_event name v \<noteq> log_event d" "stderr_event x \<noteq> log_event d"
  "log_event d \<noteq> pref_event name v" "log_event d \<noteq> stderr_event x"
  by (simp_all add: pref_event_def log_event_def stderr_event_def js_def)

lemma did_finish_load_missing:
  assumes "win s"
  shows "py (did_finish_load P False oc s) = py s
       \<and> (\<exists>prefs. sent (did_finish_load P False oc s)
                     = sent s @ [stderr_event (interpreter_missing P)] @ prefs
                   \<and> log_event (spawning P) \<notin> set prefs)"
  using assms
  by (simp add: did_finish_load_def Let_def startPython_def event_kinds_differ)

text \<open>
  C7.  If the interpreter is absent when the page has loaded, \<open>startPython\<close> sends the
  diagnostic, a stderr event that names the missing path, and returns: the process
  handle stays as it was (so unset, if it was unset), the diagnostic is the first event
  the callback sends, and the announcement of a spawn is not among the events that
  follow.
\<close>

theorem missing_interpreter_no_spawn:
  assumes "load_pending s" and "win s"
  shows "startPython P False s
           = s\<lparr>sent := sent s @
                 [JObj [(js ''event'', JStr (js ''stderr'')),
                        (js ''data'', JStr (js ''Required interpreter missing: '' @ forcedPy P @
                  js ''. Create it and install deps (python3 -m venv .venv && source .venv/bin/activate && pip install -r requirements.txt) at '' @
                  projectRoot P))]]\<rparr>
       \<and> py (step P s (DidFinishLoad False oc)) = py s
       \<and> take (Suc (length (sent s))) (sent (step P s (DidFinishLoad False oc)))
           = sent s @
               [JObj [(js ''event'', JStr (js ''stderr'')),
                      (js ''data'', JStr (js ''Required interpreter missing: '' @ forcedPy P @
                  js ''. Create it and install deps (python3 -m venv .venv && source .venv/bin/activate && pip install -r requirements.txt) at '' @
                  projectRoot P))]]
       \<and> JObj [(js ''event'', JStr (js ''log'')),
               (js ''data'', JStr (js ''Spawning Python: '' @ forcedPy P @ js '' (cwd='' @
                                   projectRoot P @ js '')''))]
           \<notin> set (drop (length (sent s)) (sent (step P s (DidFinishLoad False oc))))"
proof -
  have w: "win (s\<lparr>load_pending := False\<rparr>)" using assms(2) by simp
  from did_finish_load_missing [OF w, of P oc]
  obtain prefs where p: "py (did_finish_load P False oc (s\<lparr>load_pending := False\<rparr>)) = py s"
    "sent (did_finish_load P False oc (s\<lparr>load_pending := False\<rparr>))
       = sent s @ [stderr_event (interpreter_missing P)] @ prefs"
    "log_event (spawning P) \<notin> set prefs"
    by auto
  from assms(2) have "startPython P False s = s\<lparr>sent := sent s @ [stderr_event (interpreter_missing P)]\<rparr>"
    by (simp add: startPython_def send_event_def)
  with p assms(1) event_kinds_differ(4) [of "spawning P" "interpreter_missing P"]
  have "startPython P False s = s\<lparr>sent := sent s @ [stderr_event (interpreter_missing P)]\<rparr>
       \<and> py (step P s (DidFinishLoad False oc)) = py s
       \<and> take (Suc (length (sent s))) (sent (step P s (DidFinishLoad False oc)))
           = sent s @ [stderr_event (interpreter_missing P)]
       \<and> log_event (spawning P)
           \<notin> set (drop (length (sent s)) (sent (step P s (DidFinishLoad False oc))))"
    by simp
  then show ?thesis
    unfolding stderr_event_def log_event_def interpreter_missing_def spawning_def .
qed

lemma ready_state_eq:
  "ready_state =
     (initial (Some [js ''model'' \<mapsto> JStr (js ''tiny'')]))\<lparr>win := True, load_pending := True\<rparr>"
  by (simp add: ready_state_def initial_def createWindow_def whenReady_def)

lemma interpreter_missing_demo:
  "interpreter_missing demo = js ''Required interpreter missing: /opt/whisper-dictation/.venv/bin/python. Create it and install deps (python3 -m venv .venv && source .venv/bin/activate && pip install -r requirements.txt) at /opt/whisper-dictation''"
  by (simp add: interpreter_missing_def demo_def js_def)

lemma unstarted_state_eq:
  "unstarted_state =
     (initial (Some [js ''model'' \<mapsto> JStr (js ''tiny'')]))
       \<lparr>win := True,
        sent := [stderr_event (interpreter_missing demo),
                 pref_event (js ''pref:model'') (JStr (js ''tiny''))]\<rparr>"
  by (simp add: unstarted_state_def ready_state_eq initial_def did_finish_load_def Let_def
      startPython_def send_event_def store_get_def js_def)

text \<open>
  With a saved model and no interpreter, the page load sends the diagnostic and the
  model preference, and there is no process handle afterwards.
\<close>

theorem missing_interpreter_no_spawn_witness:
  "load_pending ready_state \<and> win ready_state \<and> py ready_state = None
   \<and> py (step demo ready_state (DidFinishLoad False Refused)) = None
   \<and> sent (step demo ready_state (DidFinishLoad False Refused))
       = [JObj [(js ''event'', JStr (js ''stderr'')),
                (js ''data'', JStr (js ''Required interpreter missing: /opt/whisper-dictation/.venv/bin/python. Create it and install deps (python3 -m venv .venv && source .venv/bin/activate && pip install -r requirements.txt) at /opt/whisper-dictation''))],
          JObj [(js ''event'', JStr (js ''pref:model'')), (js ''value'', JStr (js ''tiny''))]]"
proof -
  have r: "load_pending ready_state" "win ready_state" "py ready_state = None"
    "sent ready_state = []"
    by (simp_all add: ready_state_eq initial_def)
  have u: "sent (step demo ready_state (DidFinishLoad False Refused))
       = [JObj [(js ''event'', JStr (js ''stderr'')),
                (js ''data'', JStr (js ''Required interpreter missing: /opt/whisper-dictation/.venv/bin/python. Create it and install deps (python3 -m venv .venv && source .venv/bin/activate && pip install -r requirements.txt) at /opt/whisper-dictation''))],
          JObj [(js ''event'', JStr (js ''pref:model'')), (js ''value'', JStr (js ''tiny''))]]"
    using unstarted_state_eq [unfolded unstarted_state_def]
    by (simp add: initial_def stderr_event_def pref_event_def interpreter_missing_demo
        del: step.simps)
  from missing_interpreter_no_spawn [OF r(1,2), of demo Refused] r u
  show ?thesis by (simp del: step.simps)
qed


section \<open>Dispatch\<close>






section \<open>The round trip of a command\<close>





end
